theory Spec2Isabelle
  imports Main
begin

section \<open>The ACP-GW bridge: data model\<close>

text \<open>
  The embedding follows \<^verbatim>\<open>src/acp-gw/translator.ts\<close> (class \<^verbatim>\<open>AcpGwAgent\<close>) and the
  reconnect logic of \<^verbatim>\<open>src/acp-gw/server.ts\<close> and \<^verbatim>\<open>src/web/auto-reply.ts\<close>.
  JavaScript strings are lists of characters (one \<^typ>\<open>char\<close> per UTF-16 code unit, so that
  \<^verbatim>\<open>.length\<close> is \<^const>\<open>length\<close>); the agent's fields and the module-level session table
  are threaded through every operation as one explicit state; whatever the agent does to
  the outside (session updates, settling a promise, aborting a controller, a Gateway
  request) is appended to a trace in the order in which the code does it. The verbose-only
  \<^verbatim>\<open>log\<close> calls write to stderr and are left out.
\<close>

datatype StopReason = end_turn | max_tokens | max_turn_requests | refusal | cancelled

text \<open>
  \<^verbatim>\<open>new AbortController()\<close> allocates a fresh object. \<^verbatim>\<open>prompt\<close> allocates exactly one
  per generated run id, so the object is identified by that run id.
\<close>

datatype AbortController = AbortController string

record ActiveRun =
  runId :: string
  cancellationHandle :: AbortController

record SessionRecord =
  sessionId :: string
  sessionKey :: string
  cwd :: string
  activeRun :: "ActiveRun option"

text \<open>
  An entry of \<^verbatim>\<open>pendingPrompts\<close>. Its \<^verbatim>\<open>sessionId\<close> field is called \<open>pendingSessionId\<close>
  here (the session record already has a field of that name). The \<^verbatim>\<open>resolve\<close> and
  \<^verbatim>\<open>reject\<close> closures belong to the promise that the same \<^verbatim>\<open>prompt\<close> call returns; that
  promise is identified by the entry's \<open>idempotencyKey\<close>, the run id generated by the call.
\<close>

record PendingPrompt =
  pendingSessionId :: string
  idempotencyKey :: string
  sentTextLength :: "nat option"
  sentText :: "string option"

record Attachment =
  attType :: string
  attMimeType :: string
  attContent :: string

datatype GatewayCall =
    ChatSend string string "Attachment list option" string
  | SessionsPatch string string

datatype effect =
    SessionUpdate string string
  | Resolved string StopReason
  | Rejected string string
  | Aborted AbortController
  | GatewayRequest GatewayCall

datatype acp_error = SessionNotFound string

record state =
  sessions :: "string \<rightharpoonup> SessionRecord"
  pendingPrompts :: "(string \<times> PendingPrompt) list"
  connected :: bool
  trace :: "effect list"

definition emit :: "effect \<Rightarrow> state \<Rightarrow> state" where
  "emit e s = s\<lparr>trace := trace s @ [e]\<rparr>"

subsection \<open>The insertion-ordered \<^verbatim>\<open>Map\<close> of pending prompts\<close>

text \<open>
  A JavaScript \<^verbatim>\<open>Map\<close> iterates in insertion order; \<^verbatim>\<open>set\<close> on a key that is present
  replaces the value where it stands, on a new key it appends; \<^verbatim>\<open>delete\<close> removes the key.
\<close>

fun mapGet :: "(string \<times> 'v) list \<Rightarrow> string \<Rightarrow> 'v option" where
  "mapGet [] k = None"
| "mapGet ((k', v) # rest) k = (if k' = k then Some v else mapGet rest k)"

fun mapSet :: "string \<Rightarrow> 'v \<Rightarrow> (string \<times> 'v) list \<Rightarrow> (string \<times> 'v) list" where
  "mapSet k v [] = [(k, v)]"
| "mapSet k v ((k', v') # rest) =
     (if k' = k then (k, v) # rest else (k', v') # mapSet k v rest)"

fun mapDelete :: "string \<Rightarrow> (string \<times> 'v) list \<Rightarrow> (string \<times> 'v) list" where
  "mapDelete k [] = []"
| "mapDelete k ((k', v) # rest) =
     (if k' = k then mapDelete k rest else (k', v) # mapDelete k rest)"

subsection \<open>Session registry\<close>

text \<open>
  Modelled from the spec: \<^verbatim>\<open>getSession\<close> of \<^verbatim>\<open>src/acp-gw/session.ts\<close>, which is not among
  the sources. Spec 4.1: absence is signalled by an undefined result, no method throws.
\<close>

definition getSession :: "state \<Rightarrow> string \<Rightarrow> SessionRecord option" where
  "getSession s sid = sessions s sid"

text \<open>
  Modelled from the spec: \<^verbatim>\<open>setActiveRun(sessionId, runId, cancellationHandle)\<close> of the
  missing \<^verbatim>\<open>session.ts\<close>: it fills the session's single active-run slot; on an
  unknown session it does nothing (no registry method throws).
\<close>

definition setActiveRun :: "string \<Rightarrow> string \<Rightarrow> AbortController \<Rightarrow> state \<Rightarrow> state" where
  "setActiveRun sid rid h s =
     (case sessions s sid of
        None \<Rightarrow> s
      | Some r \<Rightarrow>
          s\<lparr>sessions := (sessions s)
               (sid \<mapsto> r\<lparr>activeRun := Some \<lparr>runId = rid, cancellationHandle = h\<rparr>\<rparr>)\<rparr>)"

text \<open>
  Modelled from the spec: \<^verbatim>\<open>clearActiveRun(sessionId)\<close> of the missing \<^verbatim>\<open>session.ts\<close>:
  it empties the session's active-run slot.
\<close>

definition clearActiveRun :: "string \<Rightarrow> state \<Rightarrow> state" where
  "clearActiveRun sid s =
     (case sessions s sid of
        None \<Rightarrow> s
      | Some r \<Rightarrow> s\<lparr>sessions := (sessions s)(sid \<mapsto> r\<lparr>activeRun := None\<rparr>)\<rparr>)"

text \<open>
  Modelled from the spec: \<^verbatim>\<open>cancelActiveRun(sessionId)\<close> of the missing \<^verbatim>\<open>session.ts\<close>:
  it "invokes the stored cancellation handle, then clears"; on a session with no active
  run (or an unknown session) it is a no-op.
\<close>

definition cancelActiveRun :: "string \<Rightarrow> state \<Rightarrow> state" where
  "cancelActiveRun sid s =
     (case sessions s sid of
        None \<Rightarrow> s
      | Some r \<Rightarrow>
          (case activeRun r of
             None \<Rightarrow> s
           | Some a \<Rightarrow> clearActiveRun sid (emit (Aborted (cancellationHandle a)) s)))"

text \<open>
  The translator reads \<^verbatim>\<open>session.abortController\<close>; in the spec's data model that is the
  cancellation handle of the optional active run.
\<close>

definition abortController :: "SessionRecord \<Rightarrow> AbortController option" where
  "abortController r = map_option cancellationHandle (activeRun r)"

section \<open>The translator\<close>

subsection \<open>Gateway events\<close>

text \<open>
  The payload of an event frame is an untyped object; the fields that \<^verbatim>\<open>handleChatEvent\<close>
  reads are optional, \<open>None\<close> standing for \<^verbatim>\<open>undefined\<close>.
\<close>

record ContentItem =
  itemType :: string
  itemText :: "string option"

record MessageData =
  content :: "ContentItem list option"

record ChatPayload =
  payloadSessionKey :: "string option"
  payloadState :: "string option"
  payloadMessage :: "MessageData option"

record EventFrame =
  event :: string
  payload :: "ChatPayload option"

text \<open>\<^verbatim>\<open>content?.find(c => c.type === "text")?.text ?? ""\<close>\<close>

definition fullTextOf :: "MessageData \<Rightarrow> string" where
  "fullTextOf m =
     (case content m of
        None \<Rightarrow> []
      | Some items \<Rightarrow>
          (case find (\<lambda>c. itemType c = ''text'') items of
             None \<Rightarrow> []
           | Some c \<Rightarrow> (case itemText c of None \<Rightarrow> [] | Some t \<Rightarrow> t)))"

text \<open>\<^verbatim>\<open>a.startsWith(b)\<close>\<close>

definition startsWith :: "string \<Rightarrow> string \<Rightarrow> bool" where
  "startsWith a b = (take (length b) a = b)"

text \<open>
  \<^verbatim>\<open>findPendingBySessionKey\<close>: the first entry, in the table's iteration order, whose
  session is registered under the given Gateway session key.
\<close>

fun findPendingIn ::
  "(string \<rightharpoonup> SessionRecord) \<Rightarrow> string \<Rightarrow> (string \<times> PendingPrompt) list \<Rightarrow> PendingPrompt option"
where
  "findPendingIn reg key [] = None"
| "findPendingIn reg key ((sid, p) # rest) =
     (if map_option sessionKey (reg sid) = Some key then Some p
      else findPendingIn reg key rest)"

definition findPendingBySessionKey :: "state \<Rightarrow> string \<Rightarrow> PendingPrompt option" where
  "findPendingBySessionKey s key = findPendingIn (sessions s) key (pendingPrompts s)"

text \<open>The mapping of a terminal chat state to the ACP stop reason.\<close>

definition stopReasonOf :: "string \<Rightarrow> StopReason" where
  "stopReasonOf st =
     (if st = ''final'' \<or> st = ''done'' then end_turn
      else if st = ''aborted'' then cancelled
      else refusal)"

definition isTerminal :: "string \<Rightarrow> bool" where
  "isTerminal st \<longleftrightarrow> st = ''final'' \<or> st = ''done'' \<or> st = ''error'' \<or> st = ''aborted''"

text \<open>
  The delta branch of \<^verbatim>\<open>handleChatEvent\<close>, for the session id of the entry that was found
  and the message of the payload.
\<close>

definition handleDelta :: "string \<Rightarrow> MessageData \<Rightarrow> state \<Rightarrow> state" where
  "handleDelta sid m s =
     (let fullText = fullTextOf m;
          actualPending = mapGet (pendingPrompts s) sid;
          sentSoFar = (case actualPending of
                         None \<Rightarrow> 0
                       | Some a \<Rightarrow> (case sentTextLength a of None \<Rightarrow> 0 | Some n \<Rightarrow> n));
          sentTxt = (case actualPending of
                       None \<Rightarrow> []
                     | Some a \<Rightarrow> (case sentText a of None \<Rightarrow> [] | Some t \<Rightarrow> t))
      in case actualPending of
           None \<Rightarrow> s
         | Some a \<Rightarrow>
             if length fullText > sentSoFar then
               (let newText = drop sentSoFar fullText in
                if length sentTxt > 0
                   \<and> startsWith newText (take (min 20 (length sentTxt)) sentTxt)
                then s
                else emit (SessionUpdate sid newText)
                       (s\<lparr>pendingPrompts :=
                            mapSet sid
                              (a\<lparr>sentTextLength := Some (length fullText),
                                 sentText := Some fullText\<rparr>)
                              (pendingPrompts s)\<rparr>))
             else s)"

text \<open>
  The terminal branch, statement by statement and in the order of the source: the state
  after \<^verbatim>\<open>this.pendingPrompts.delete(sessionId)\<close>, the state after
  \<^verbatim>\<open>clearActiveRun(sessionId)\<close>, and the state after \<^verbatim>\<open>pending.resolve({ stopReason })\<close>.
  The branch leaves the last of them.
\<close>

definition terminalSteps :: "PendingPrompt \<Rightarrow> string \<Rightarrow> state \<Rightarrow> state list" where
  "terminalSteps pending st s =
     (let sid = pendingSessionId pending;
          s1 = s\<lparr>pendingPrompts := mapDelete sid (pendingPrompts s)\<rparr>;
          s2 = clearActiveRun sid s1;
          s3 = emit (Resolved (idempotencyKey pending) (stopReasonOf st)) s2
      in [s1, s2, s3])"

definition handleTerminal :: "PendingPrompt \<Rightarrow> string \<Rightarrow> state \<Rightarrow> state" where
  "handleTerminal pending st s = last (terminalSteps pending st s)"

definition handleChatEvent :: "EventFrame \<Rightarrow> state \<Rightarrow> state" where
  "handleChatEvent evt s =
     (case payload evt of
        None \<Rightarrow> s
      | Some pl \<Rightarrow>
          (case payloadSessionKey pl of
             None \<Rightarrow> s
           | Some key \<Rightarrow>
               if key = [] then s
               else
                 (case findPendingBySessionKey s key of
                    None \<Rightarrow> s
                  | Some pending \<Rightarrow>
                      (case (payloadState pl, payloadMessage pl) of
                         (Some st, Some m) \<Rightarrow>
                           if st = ''delta'' then handleDelta (pendingSessionId pending) m s
                           else if isTerminal st then handleTerminal pending st s
                           else s
                       | (Some st, None) \<Rightarrow>
                           if isTerminal st then handleTerminal pending st s else s
                       | (None, _) \<Rightarrow> s))))"

subsection \<open>Lifecycle and disconnect\<close>

definition start :: "state \<Rightarrow> state" where
  "start s = s\<lparr>connected := True\<rparr>"

text \<open>
  The loop of \<^verbatim>\<open>handleGatewayDisconnect\<close> over the table: reject the entry's promise,
  then clear the active run of the session the entry is stored under.
\<close>

fun rejectAll :: "string \<Rightarrow> (string \<times> PendingPrompt) list \<Rightarrow> state \<Rightarrow> state" where
  "rejectAll reason [] s = s"
| "rejectAll reason ((sid, p) # rest) s =
     rejectAll reason rest
       (clearActiveRun sid
          (emit (Rejected (idempotencyKey p) (''Gateway disconnected: '' @ reason)) s))"

definition handleGatewayDisconnect :: "string \<Rightarrow> state \<Rightarrow> state" where
  "handleGatewayDisconnect reason s =
     (let s1 = s\<lparr>connected := False\<rparr>;
          s2 = rejectAll reason (pendingPrompts s1) s1
      in s2\<lparr>pendingPrompts := []\<rparr>)"

subsection \<open>Prompts\<close>

text \<open>
  A block of the structured prompt: a text block, an image block (its \<^verbatim>\<open>data\<close> and
  \<^verbatim>\<open>mimeType\<close> may be missing) or any other block.
\<close>

datatype ContentBlock =
    TextBlock string
  | ImageBlock "string option" "string option"
  | OtherBlock

fun joinWith :: "string \<Rightarrow> string list \<Rightarrow> string" where
  "joinWith sep [] = []"
| "joinWith sep [x] = x"
| "joinWith sep (x # y # ys) = x @ sep @ joinWith sep (y # ys)"

fun textOfBlock :: "ContentBlock \<Rightarrow> string option" where
  "textOfBlock (TextBlock t) = Some t"
| "textOfBlock _ = None"

definition extractTextFromPrompt :: "ContentBlock list \<Rightarrow> string" where
  "extractTextFromPrompt blocks = joinWith [CHR 0x0A] (List.map_filter textOfBlock blocks)"

fun attachmentOfBlock :: "ContentBlock \<Rightarrow> Attachment option" where
  "attachmentOfBlock (ImageBlock (Some d) (Some m)) =
     (if d \<noteq> [] \<and> m \<noteq> []
      then Some \<lparr>attType = ''image'', attMimeType = m, attContent = d\<rparr>
      else None)"
| "attachmentOfBlock _ = None"

definition extractAttachmentsFromPrompt :: "ContentBlock list \<Rightarrow> Attachment list" where
  "extractAttachmentsFromPrompt blocks = List.map_filter attachmentOfBlock blocks"

text \<open>
  \<^verbatim>\<open>prompt\<close>. The fresh \<^verbatim>\<open>crypto.randomUUID()\<close> is the argument \<open>rid\<close>. The function has
  no \<^verbatim>\<open>await\<close>, so all of it is one step; the promise it returns is the one that the
  effects \<open>Resolved rid\<close> and \<open>Rejected rid\<close> settle later. \<open>Inl\<close> is the thrown error.
\<close>

definition prompt :: "string \<Rightarrow> ContentBlock list \<Rightarrow> string \<Rightarrow> state \<Rightarrow> acp_error + state" where
  "prompt sid blocks rid s =
     (case getSession s sid of
        None \<Rightarrow> Inl (SessionNotFound sid)
      | Some session \<Rightarrow>
          (let s1 = (if abortController session \<noteq> None then cancelActiveRun sid s else s);
               s2 = setActiveRun sid rid (AbortController rid) s1;
               userText = extractTextFromPrompt blocks;
               attachments = extractAttachmentsFromPrompt blocks;
               message = ''[Working directory: '' @ cwd session @ '']'' @ [CHR 0x0A, CHR 0x0A]
                           @ userText;
               s3 = s2\<lparr>pendingPrompts :=
                         mapSet sid
                           \<lparr>pendingSessionId = sid, idempotencyKey = rid,
                            sentTextLength = None, sentText = None\<rparr>
                           (pendingPrompts s2)\<rparr>
           in Inr (emit (GatewayRequest
                           (ChatSend (sessionKey session) message
                              (if length attachments > 0 then Some attachments else None) rid))
                     s3)))"

text \<open>
  The \<^verbatim>\<open>.catch\<close> handler that \<^verbatim>\<open>prompt\<close> attaches to the \<^verbatim>\<open>chat.send\<close> request: it runs,
  as one step, when the request is rejected. It closes over the session id and the
  \<^verbatim>\<open>reject\<close> of the prompt that issued the request.
\<close>

definition chatSendCatch :: "string \<Rightarrow> string \<Rightarrow> string \<Rightarrow> state \<Rightarrow> state" where
  "chatSendCatch sid rid err s =
     (let s1 = s\<lparr>pendingPrompts := mapDelete sid (pendingPrompts s)\<rparr>;
          s2 = clearActiveRun sid s1
      in emit (Rejected rid err) s2)"

text \<open>A sequence of \<^verbatim>\<open>prompt\<close> calls with nothing in between; the first error ends it.\<close>

fun promptCalls :: "(string \<times> ContentBlock list \<times> string) list \<Rightarrow> state \<Rightarrow> acp_error + state" where
  "promptCalls [] s = Inr s"
| "promptCalls ((sid, blocks, rid) # rest) s =
     (case prompt sid blocks rid s of
        Inl e \<Rightarrow> Inl e
      | Inr s' \<Rightarrow> promptCalls rest s')"

subsection \<open>Session mode\<close>

text \<open>
  How an awaited Gateway request ends: it resolves or it is rejected with an error. The
  request itself is an effect; its outcome is an input of the model.
\<close>

datatype rpc_outcome = RpcOk | RpcError string

definition gatewayRequest :: "GatewayCall \<Rightarrow> rpc_outcome \<Rightarrow> state \<Rightarrow> rpc_outcome \<times> state" where
  "gatewayRequest call outcome s = (outcome, emit (GatewayRequest call) s)"

text \<open>
  \<^verbatim>\<open>setSessionMode\<close>: the \<^verbatim>\<open>try\<close> block awaits the patch request, the \<^verbatim>\<open>catch\<close> block only
  logs. Both ways the function goes on to \<^verbatim>\<open>return {}\<close>.
\<close>

definition setSessionMode :: "string \<Rightarrow> string \<Rightarrow> rpc_outcome \<Rightarrow> state \<Rightarrow> acp_error + state" where
  "setSessionMode sid modeId outcome s =
     (case getSession s sid of
        None \<Rightarrow> Inl (SessionNotFound sid)
      | Some session \<Rightarrow>
          if modeId \<noteq> [] then
            (case gatewayRequest (SessionsPatch (sessionKey session) modeId) outcome s of
               (RpcOk, s1) \<Rightarrow> Inr s1
             | (RpcError err, s1) \<Rightarrow> Inr s1)
          else Inr s)"

section \<open>Reconnection\<close>

subsection \<open>The bridge's own loop (\<^verbatim>\<open>src/acp-gw/server.ts\<close>)\<close>



text \<open>
  The two variables of \<^verbatim>\<open>serveAcpGw\<close> that the loop owns. A pending timer is recorded with
  the delay it was set to.
\<close>

record ConnectionState =
  reconnectAttempts :: nat
  reconnectTimer :: "nat option"



definition onHelloOk :: "ConnectionState \<Rightarrow> ConnectionState" where
  "onHelloOk c = c\<lparr>reconnectAttempts := 0\<rparr>"

definition timerFired :: "ConnectionState \<Rightarrow> ConnectionState" where
  "timerFired c = c\<lparr>reconnectTimer := None\<rparr>"

subsection \<open>The web provider's loop (\<^verbatim>\<open>src/web/auto-reply.ts\<close>)\<close>





section \<open>Invariant of the pending table, and example inputs\<close>

text \<open>
  \<^verbatim>\<open>prompt\<close> is the only writer of new entries, and it stores each entry under the
  session id that the entry itself carries; keys of a \<^verbatim>\<open>Map\<close> are distinct.
\<close>

definition pendingWf :: "state \<Rightarrow> bool" where
  "pendingWf s \<longleftrightarrow>
     distinct (map fst (pendingPrompts s))
     \<and> list_all (\<lambda>(k, p). pendingSessionId p = k) (pendingPrompts s)"

text \<open>A chat event frame, and the message of a delta that carries one text item.\<close>

definition chatEvent :: "string \<Rightarrow> string \<Rightarrow> MessageData option \<Rightarrow> EventFrame" where
  "chatEvent key st m =
     \<lparr>event = ''chat'',
      payload = Some \<lparr>payloadSessionKey = Some key, payloadState = Some st,
                      payloadMessage = m\<rparr>\<rparr>"

definition textMessage :: "string \<Rightarrow> MessageData" where
  "textMessage t = \<lparr>content = Some [\<lparr>itemType = ''text'', itemText = Some t\<rparr>]\<rparr>"

definition deltaEvent :: "string \<Rightarrow> string \<Rightarrow> EventFrame" where
  "deltaEvent key t = chatEvent key ''delta'' (Some (textMessage t))"

text \<open>Delta events with the given cumulative texts, one after the other.\<close>

fun feedDeltas :: "string \<Rightarrow> string list \<Rightarrow> state \<Rightarrow> state" where
  "feedDeltas key [] s = s"
| "feedDeltas key (t # ts) s = feedDeltas key ts (handleChatEvent (deltaEvent key t) s)"

text \<open>The text chunks that a trace forwards to a session, in order.\<close>

fun chunksOf :: "string \<Rightarrow> effect list \<Rightarrow> string list" where
  "chunksOf sid [] = []"
| "chunksOf sid (SessionUpdate sid' t # es) =
     (if sid' = sid then t # chunksOf sid es else chunksOf sid es)"
| "chunksOf sid (_ # es) = chunksOf sid es"

text \<open>
  Of a sequence of prompt calls: the run id of the last call for a session, and the run
  ids of the calls that a later call for the same session supersedes.
\<close>

fun lastRunFor :: "string \<Rightarrow> (string \<times> ContentBlock list \<times> string) list \<Rightarrow> string option" where
  "lastRunFor sid [] = None"
| "lastRunFor sid ((sid', blocks, rid) # rest) =
     (case lastRunFor sid rest of
        Some r \<Rightarrow> Some r
      | None \<Rightarrow> (if sid' = sid then Some rid else None))"

fun supersededRuns :: "(string \<times> ContentBlock list \<times> string) list \<Rightarrow> string list" where
  "supersededRuns [] = []"
| "supersededRuns ((sid, blocks, rid) # rest) =
     (if lastRunFor sid rest \<noteq> None then rid # supersededRuns rest else supersededRuns rest)"

text \<open>
  A bridge with two sessions and nothing pending, and the states after a prompt on the
  first session and after prompts on both.
\<close>

definition exampleState :: state where
  "exampleState =
     \<lparr>sessions =
        [''s1'' \<mapsto> \<lparr>sessionId = ''s1'', sessionKey = ''acp:s1'', cwd = ''/tmp/x'',
                    activeRun = None\<rparr>,
         ''s2'' \<mapsto> \<lparr>sessionId = ''s2'', sessionKey = ''acp:s2'', cwd = ''/tmp/y'',
                    activeRun = None\<rparr>],
      pendingPrompts = [], connected = True, trace = []\<rparr>"

definition orElse :: "acp_error + state \<Rightarrow> state \<Rightarrow> state" where
  "orElse r s = (case r of Inl e \<Rightarrow> s | Inr s' \<Rightarrow> s')"

definition examplePrompted :: state where
  "examplePrompted = orElse (prompt ''s1'' [TextBlock ''ping''] ''run-1'' exampleState) exampleState"

definition examplePromptedBoth :: state where
  "examplePromptedBoth =
     orElse (prompt ''s2'' [TextBlock ''pong''] ''run-2'' examplePrompted) examplePrompted"

text \<open>
  What \<^verbatim>\<open>handleChatEvent\<close> reads from an entry: \<^verbatim>\<open>sentTextLength ?? 0\<close> and
  \<^verbatim>\<open>sentText ?? ""\<close>.
\<close>

definition storedLength :: "PendingPrompt \<Rightarrow> nat" where
  "storedLength a = (case sentTextLength a of None \<Rightarrow> 0 | Some n \<Rightarrow> n)"

definition storedText :: "PendingPrompt \<Rightarrow> string" where
  "storedText a = (case sentText a of None \<Rightarrow> [] | Some t \<Rightarrow> t)"

text \<open>The state after the first session's prompt has received the cumulative text "ha".\<close>

definition exampleSentHa :: state where
  "exampleSentHa = handleChatEvent (deltaEvent ''acp:s1'' ''ha'') examplePrompted"

section \<open>Basic facts\<close>

lemma mapGet_mapDelete_same: "mapGet (mapDelete k xs) k = None"
  by (induction xs) auto

lemma mapGet_mapDelete_other: "k' \<noteq> k \<Longrightarrow> mapGet (mapDelete k xs) k' = mapGet xs k'"
  by (induction xs) auto

lemma mapGet_mapSet: "mapGet (mapSet k v xs) k' = (if k' = k then Some v else mapGet xs k')"
  by (induction xs) auto

lemma clearActiveRun_fields:
  "trace (clearActiveRun sid s) = trace s"
  "pendingPrompts (clearActiveRun sid s) = pendingPrompts s"
  "connected (clearActiveRun sid s) = connected s"
  by (simp_all add: clearActiveRun_def split: option.splits)

lemma clearActiveRun_sessions:
  "sessions (clearActiveRun sid s) sid' =
     (if sid' = sid then map_option (\<lambda>r. r\<lparr>activeRun := None\<rparr>) (sessions s sid)
      else sessions s sid')"
  by (simp add: clearActiveRun_def split: option.splits)

lemma findPendingIn_None_iff:
  "findPendingIn reg key ps = None \<longleftrightarrow>
     (\<forall>(k, p) \<in> set ps. map_option sessionKey (reg k) \<noteq> Some key)"
proof (induction reg key ps rule: findPendingIn.induct)
  case (1 reg key)
  show ?case by simp
next
  case (2 reg key sid p rest)
  show ?case
  proof (cases "map_option sessionKey (reg sid) = Some key")
    case True
    then show ?thesis by auto
  next
    case False
    with 2 show ?thesis by auto
  qed
qed

lemma findPendingIn_Some:
  "findPendingIn reg key ps = Some p \<Longrightarrow>
     \<exists>k. (k, p) \<in> set ps \<and> map_option sessionKey (reg k) = Some key"
proof (induction reg key ps rule: findPendingIn.induct)
  case (1 reg key)
  then show ?case by simp
next
  case (2 reg key sid q rest)
  show ?case
  proof (cases "map_option sessionKey (reg sid) = Some key")
    case True
    with 2 show ?thesis by auto
  next
    case False
    with 2 have "findPendingIn reg key rest = Some p" by (auto split: if_splits)
    with 2 False obtain k where "(k, p) \<in> set rest" "map_option sessionKey (reg k) = Some key"
      by blast
    then show ?thesis by auto
  qed
qed

lemma examplePrompted_eq:
  "examplePrompted =
     \<lparr>sessions =
        [''s1'' \<mapsto> \<lparr>sessionId = ''s1'', sessionKey = ''acp:s1'', cwd = ''/tmp/x'',
                    activeRun = Some \<lparr>runId = ''run-1'',
                                       cancellationHandle = AbortController ''run-1''\<rparr>\<rparr>,
         ''s2'' \<mapsto> \<lparr>sessionId = ''s2'', sessionKey = ''acp:s2'', cwd = ''/tmp/y'',
                    activeRun = None\<rparr>],
      pendingPrompts =
        [(''s1'', \<lparr>pendingSessionId = ''s1'', idempotencyKey = ''run-1'',
                   sentTextLength = None, sentText = None\<rparr>)],
      connected = True,
      trace = [GatewayRequest (ChatSend ''acp:s1''
                 (''[Working directory: /tmp/x]'' @ [CHR 0x0A, CHR 0x0A] @ ''ping'') None ''run-1'')]\<rparr>"
  by (simp add: examplePrompted_def exampleState_def orElse_def prompt_def getSession_def
      abortController_def setActiveRun_def emit_def extractTextFromPrompt_def
      extractAttachmentsFromPrompt_def List.map_filter_def fun_upd_twist)


section \<open>Chat events that match no pending prompt\<close>

text \<open>
  Claim C10. A chat event whose payload is missing, or lacks a session key (the key is
  undefined or the empty string), or whose session key belongs to no session with a
  pending prompt, changes nothing: the state after \<^verbatim>\<open>handleChatEvent\<close> is the state before
  it, so no session update is in the trace and the pending table and every session's
  active-run slot are as they were.
\<close>

theorem handleChatEvent_unmatched_is_noop:
  assumes "payload evt = None
           \<or> (\<exists>pl. payload evt = Some pl
                \<and> (payloadSessionKey pl = None \<or> payloadSessionKey pl = Some []
                    \<or> (\<exists>key. payloadSessionKey pl = Some key
                          \<and> findPendingBySessionKey s key = None)))"
  shows "handleChatEvent evt s = s"
  using assms by (auto simp: handleChatEvent_def)

theorem handleChatEvent_unmatched_is_noop_witness:
  "findPendingBySessionKey examplePrompted ''acp:s2'' = None
   \<and> handleChatEvent (chatEvent ''acp:s2'' ''final'' None) examplePrompted = examplePrompted"
proof -
  have h: "findPendingBySessionKey examplePrompted ''acp:s2'' = None"
    by (simp add: examplePrompted_eq findPendingBySessionKey_def)
  show ?thesis
    using h handleChatEvent_unmatched_is_noop
            [of "chatEvent ''acp:s2'' ''final'' None" examplePrompted]
    by (simp add: chatEvent_def)
qed


section \<open>Terminal chat events\<close>

lemma emit_fields:
  "trace (emit e s) = trace s @ [e]"
  "pendingPrompts (emit e s) = pendingPrompts s"
  "sessions (emit e s) = sessions s"
  "connected (emit e s) = connected s"
  by (simp_all add: emit_def)

lemma mapDelete_filter: "mapDelete k xs = filter (\<lambda>x. fst x \<noteq> k) xs"
  by (induction xs) auto

lemma mapDelete_in: "(k', v) \<in> set (mapDelete k xs) \<longleftrightarrow> (k', v) \<in> set xs \<and> k' \<noteq> k"
  by (auto simp: mapDelete_filter)

lemma findPending_wf:
  assumes "pendingWf s" and "findPendingBySessionKey s key = Some p"
  shows "(pendingSessionId p, p) \<in> set (pendingPrompts s)"
    and "map_option sessionKey (sessions s (pendingSessionId p)) = Some key"
    and "mapGet (pendingPrompts s) (pendingSessionId p) = Some p"
proof -
  from assms(2) obtain k where k: "(k, p) \<in> set (pendingPrompts s)"
      "map_option sessionKey (sessions s k) = Some key"
    unfolding findPendingBySessionKey_def by (blast dest: findPendingIn_Some)
  from assms(1) k(1) have eq: "pendingSessionId p = k"
    unfolding pendingWf_def list_all_iff by auto
  from k eq show "(pendingSessionId p, p) \<in> set (pendingPrompts s)" by simp
  from k eq show "map_option sessionKey (sessions s (pendingSessionId p)) = Some key" by simp
  have "distinct (map fst xs) \<Longrightarrow> (k, p) \<in> set xs \<Longrightarrow> mapGet xs k = Some p" for xs
    by (induction xs) force+
  with assms(1) k(1) eq show "mapGet (pendingPrompts s) (pendingSessionId p) = Some p"
    unfolding pendingWf_def by simp
qed

lemma handleTerminal_shape:
  "\<exists>s0. pendingPrompts s0 = mapDelete (pendingSessionId p) (pendingPrompts s)
       \<and> sessions s0 (pendingSessionId p)
           = map_option (\<lambda>r. r\<lparr>activeRun := None\<rparr>) (sessions s (pendingSessionId p))
       \<and> trace s0 = trace s
       \<and> handleTerminal p st s = emit (Resolved (idempotencyKey p) (stopReasonOf st)) s0"
  unfolding handleTerminal_def terminalSteps_def Let_def
  by (rule exI[of _ "clearActiveRun (pendingSessionId p)
        (s\<lparr>pendingPrompts := mapDelete (pendingSessionId p) (pendingPrompts s)\<rparr>)"])
     (simp add: clearActiveRun_fields clearActiveRun_sessions)

lemma handleChatEvent_terminal:
  assumes "payload evt = Some pl" "payloadSessionKey pl = Some key" "key \<noteq> []"
    "findPendingBySessionKey s key = Some p" "payloadState pl = Some st" "isTerminal st"
  shows "handleChatEvent evt s = handleTerminal p st s"
  using assms by (auto simp: handleChatEvent_def isTerminal_def split: option.splits)

text \<open>
  Claim C2. When a chat event with a terminal state (final, done, aborted, error) finds a
  pending prompt, \<^verbatim>\<open>handleChatEvent\<close> runs the three statements of the terminal branch in
  this order. After the first the pending table has no entry for the prompt's session and
  nothing has been resolved yet (the trace is the old one); after the second the
  session's active-run slot is empty as well, still with nothing resolved; the third
  resolves the promise of the prompt, and it is the only new effect: the trace of the
  result is the old trace followed by that one resolution. In the result the entry is
  gone and the slot is empty. The stop reason is \<open>end_turn\<close> for final and done,
  \<open>cancelled\<close> for aborted and \<open>refusal\<close> for error.
\<close>

theorem terminal_event_releases_then_resolves:
  assumes "pendingWf s"
    and "payload evt = Some pl" and "payloadSessionKey pl = Some key" and "key \<noteq> []"
    and "findPendingBySessionKey s key = Some p"
    and "payloadState pl = Some st"
    and "st = ''final'' \<or> st = ''done'' \<or> st = ''aborted'' \<or> st = ''error''"
  shows "\<exists>s1 s2. terminalSteps p st s = [s1, s2, handleChatEvent evt s]
            \<and> (pendingSessionId p, p) \<in> set (pendingPrompts s)
            \<and> map_option sessionKey (sessions s (pendingSessionId p)) = Some key
            \<and> mapGet (pendingPrompts s1) (pendingSessionId p) = None
            \<and> trace s1 = trace s
            \<and> mapGet (pendingPrompts s2) (pendingSessionId p) = None
            \<and> p \<notin> snd ` set (pendingPrompts s2)
            \<and> (\<exists>r. sessions s2 (pendingSessionId p) = Some r
                   \<and> sessionKey r = key \<and> activeRun r = None)
            \<and> trace s2 = trace s
            \<and> handleChatEvent evt s =
                emit (Resolved (idempotencyKey p)
                        (if st = ''final'' \<or> st = ''done'' then end_turn
                         else if st = ''aborted'' then cancelled
                         else refusal)) s2
            \<and> trace (handleChatEvent evt s) =
                trace s @ [Resolved (idempotencyKey p)
                             (if st = ''final'' \<or> st = ''done'' then end_turn
                              else if st = ''aborted'' then cancelled
                              else refusal)]
            \<and> mapGet (pendingPrompts (handleChatEvent evt s)) (pendingSessionId p) = None
            \<and> p \<notin> snd ` set (pendingPrompts (handleChatEvent evt s))
            \<and> (\<exists>r. sessions (handleChatEvent evt s) (pendingSessionId p) = Some r
                   \<and> sessionKey r = key \<and> activeRun r = None)"
proof -
  let ?sid = "pendingSessionId p"
  let ?s1 = "s\<lparr>pendingPrompts := mapDelete ?sid (pendingPrompts s)\<rparr>"
  let ?s2 = "clearActiveRun ?sid ?s1"
  let ?e = "Resolved (idempotencyKey p)
              (if st = ''final'' \<or> st = ''done'' then end_turn
               else if st = ''aborted'' then cancelled
               else refusal)"
  from assms(7) have trm: "isTerminal st" by (auto simp: isTerminal_def)
  have sr: "stopReasonOf st = (if st = ''final'' \<or> st = ''done'' then end_turn
                         else if st = ''aborted'' then cancelled
                         else refusal)"
    by (simp only: stopReasonOf_def)
  have steps: "terminalSteps p st s = [?s1, ?s2, emit ?e ?s2]"
    by (simp only: terminalSteps_def Let_def sr)
  have "handleChatEvent evt s = handleTerminal p st s"
    using assms(2-6) trm by (rule handleChatEvent_terminal)
  then have hc: "handleChatEvent evt s = emit ?e ?s2"
    by (simp add: handleTerminal_def steps)
  note w = findPending_wf(1,2)[OF assms(1) assms(5)]
  from w(2) obtain r0 where r0: "sessions s ?sid = Some r0" "sessionKey r0 = key"
    by auto
  have wf: "list_all (\<lambda>(k, q). pendingSessionId q = k) (pendingPrompts s)"
    using assms(1) by (simp add: pendingWf_def)
  have g1: "mapGet (pendingPrompts ?s1) ?sid = None"
    by (simp add: mapGet_mapDelete_same)
  have t1: "trace ?s1 = trace s" by simp
  have p2: "pendingPrompts ?s2 = mapDelete ?sid (pendingPrompts s)"
    by (simp add: clearActiveRun_fields)
  have g2: "mapGet (pendingPrompts ?s2) ?sid = None"
    by (simp only: p2 mapGet_mapDelete_same)
  have notin: "p \<notin> snd ` set (pendingPrompts ?s2)"
  proof
    assume "p \<in> snd ` set (pendingPrompts ?s2)"
    then obtain k where "(k, p) \<in> set (mapDelete ?sid (pendingPrompts s))"
      unfolding p2 by auto
    then have "(k, p) \<in> set (pendingPrompts s)" "k \<noteq> ?sid"
      by (simp_all add: mapDelete_in)
    with wf show False by (auto simp: list_all_iff)
  qed
  have se2: "sessions ?s2 ?sid = Some (r0\<lparr>activeRun := None\<rparr>)"
    by (simp add: clearActiveRun_sessions r0)
  have slot2: "\<exists>r. sessions ?s2 ?sid = Some r \<and> sessionKey r = key \<and> activeRun r = None"
    using se2 r0(2) by simp
  have t2: "trace ?s2 = trace s"
    by (simp add: clearActiveRun_fields)
  have tr: "trace (handleChatEvent evt s) = trace s @ [?e]"
    by (simp only: hc emit_fields t2)
  have pr: "pendingPrompts (handleChatEvent evt s) = pendingPrompts ?s2"
    by (simp only: hc emit_fields)
  have sr': "sessions (handleChatEvent evt s) = sessions ?s2"
    by (simp only: hc emit_fields)
  have steps': "terminalSteps p st s = [?s1, ?s2, handleChatEvent evt s]"
    by (simp only: steps hc)
  show ?thesis
    apply (rule exI[of _ ?s1])
    apply (rule exI[of _ ?s2])
    apply (intro conjI)
                 apply (rule steps')
                apply (rule w(1))
               apply (rule w(2))
              apply (rule g1)
             apply (rule t1)
            apply (rule g2)
           apply (rule notin)
          apply (rule slot2)
         apply (rule t2)
        apply (rule hc)
       apply (rule tr)
      apply (simp only: pr g2)
     apply (simp only: pr notin not_False_eq_True)
    apply (simp only: sr' slot2)
    done
qed

theorem terminal_event_releases_then_resolves_witness:
  "pendingWf examplePrompted
   \<and> findPendingBySessionKey examplePrompted ''acp:s1''
       = Some \<lparr>pendingSessionId = ''s1'', idempotencyKey = ''run-1'',
               sentTextLength = None, sentText = None\<rparr>
   \<and> (\<exists>s1 s2. terminalSteps \<lparr>pendingSessionId = ''s1'', idempotencyKey = ''run-1'',
                                sentTextLength = None, sentText = None\<rparr> ''error'' examplePrompted
                  = [s1, s2, handleChatEvent (chatEvent ''acp:s1'' ''error'' None) examplePrompted]
          \<and> mapGet (pendingPrompts s1) ''s1'' = None
          \<and> trace s1 = trace examplePrompted
          \<and> mapGet (pendingPrompts s2) ''s1'' = None
          \<and> (\<exists>r. sessions s2 ''s1'' = Some r \<and> activeRun r = None)
          \<and> trace s2 = trace examplePrompted)
   \<and> trace (handleChatEvent (chatEvent ''acp:s1'' ''error'' None) examplePrompted)
       = trace examplePrompted @ [Resolved ''run-1'' refusal]
   \<and> mapGet (pendingPrompts (handleChatEvent (chatEvent ''acp:s1'' ''error'' None) examplePrompted))
        ''s1'' = None
   \<and> (\<exists>r. sessions (handleChatEvent (chatEvent ''acp:s1'' ''error'' None) examplePrompted) ''s1''
             = Some r \<and> activeRun r = None)"
proof -
  let ?p = "\<lparr>pendingSessionId = ''s1'', idempotencyKey = ''run-1'',
             sentTextLength = None, sentText = None\<rparr>"
  let ?h = "handleChatEvent (chatEvent ''acp:s1'' ''error'' None) examplePrompted"
  have wf: "pendingWf examplePrompted"
    by (simp add: examplePrompted_eq pendingWf_def)
  have f: "findPendingBySessionKey examplePrompted ''acp:s1'' = Some ?p"
    by (simp add: examplePrompted_eq findPendingBySessionKey_def)
  have pl: "payload (chatEvent ''acp:s1'' ''error'' None)
              = Some \<lparr>payloadSessionKey = Some ''acp:s1'', payloadState = Some ''error'',
                      payloadMessage = None\<rparr>"
    by (simp add: chatEvent_def)
  from terminal_event_releases_then_resolves [OF wf pl _ _ f, of "''error''"]
  obtain s1 s2 where st: "terminalSteps ?p ''error'' examplePrompted = [s1, s2, ?h]"
      and a: "mapGet (pendingPrompts s1) ''s1'' = None" "trace s1 = trace examplePrompted"
      and b: "mapGet (pendingPrompts s2) ''s1'' = None"
        "\<exists>r. sessions s2 ''s1'' = Some r \<and> sessionKey r = ''acp:s1'' \<and> activeRun r = None"
        "trace s2 = trace examplePrompted"
      and c: "trace ?h = trace examplePrompted @ [Resolved ''run-1'' refusal]"
        "mapGet (pendingPrompts ?h) ''s1'' = None"
        "\<exists>r. sessions ?h ''s1'' = Some r \<and> sessionKey r = ''acp:s1'' \<and> activeRun r = None"
    by auto
  from b(2) have b2: "\<exists>r. sessions s2 ''s1'' = Some r \<and> activeRun r = None" by blast
  from c(3) have c3: "\<exists>r. sessions ?h ''s1'' = Some r \<and> activeRun r = None" by blast
  from st a b(1) b2 b(3)
  have ex: "\<exists>s1 s2. terminalSteps ?p ''error'' examplePrompted = [s1, s2, ?h]
          \<and> mapGet (pendingPrompts s1) ''s1'' = None
          \<and> trace s1 = trace examplePrompted
          \<and> mapGet (pendingPrompts s2) ''s1'' = None
          \<and> (\<exists>r. sessions s2 ''s1'' = Some r \<and> activeRun r = None)
          \<and> trace s2 = trace examplePrompted"
    by blast
  from wf f ex c(1) c(2) c3 show ?thesis by (intro conjI)
qed

section \<open>Gateway disconnect\<close>

lemma rejectAll_pendingPrompts: "pendingPrompts (rejectAll reason ps s) = pendingPrompts s"
  by (induction reason ps s rule: rejectAll.induct)
     (simp_all add: clearActiveRun_fields emit_fields)

lemma rejectAll_connected: "connected (rejectAll reason ps s) = connected s"
  by (induction reason ps s rule: rejectAll.induct)
     (simp_all add: clearActiveRun_fields emit_fields)

lemma rejectAll_trace:
  "trace (rejectAll reason ps s) =
     trace s @ map (\<lambda>(k, p). Rejected (idempotencyKey p) (''Gateway disconnected: '' @ reason)) ps"
  by (induction reason ps s rule: rejectAll.induct)
     (simp_all add: clearActiveRun_fields emit_fields)

lemma rejectAll_sessions:
  "sessions (rejectAll reason ps s) sid =
     (if sid \<in> fst ` set ps then map_option (\<lambda>r. r\<lparr>activeRun := None\<rparr>) (sessions s sid)
      else sessions s sid)"
proof (induction reason ps s arbitrary: sid rule: rejectAll.induct)
  case (1 reason s)
  show ?case by simp
next
  case (2 reason k p rest s)
  let ?s1 = "clearActiveRun k
               (emit (Rejected (idempotencyKey p) (''Gateway disconnected: '' @ reason)) s)"
  have "sessions (rejectAll reason ((k, p) # rest) s) sid = sessions (rejectAll reason rest ?s1) sid"
    by (simp only: rejectAll.simps)
  also have "\<dots> = (if sid \<in> fst ` set rest
                    then map_option (\<lambda>r. r\<lparr>activeRun := None\<rparr>) (sessions ?s1 sid)
                    else sessions ?s1 sid)"
    by (rule 2)
  also have "\<dots> = (if sid \<in> fst ` set ((k, p) # rest)
                    then map_option (\<lambda>r. r\<lparr>activeRun := None\<rparr>) (sessions s sid)
                    else sessions s sid)"
    by (cases "sessions s k")
       (simp_all add: clearActiveRun_sessions emit_fields option.map_comp comp_def)
  finally show ?case .
qed

text \<open>
  Claim C4. Whatever the number of pending prompts, one \<^verbatim>\<open>handleGatewayDisconnect(reason)\<close>
  marks the translator disconnected, rejects the promise of every entry of the pending
  table, in the table's order and each with the error "Gateway disconnected: reason"
  (so as many rejections as there were entries), leaves every session that had an entry
  with an empty active-run slot, removes no session, and leaves the table empty.
\<close>

theorem disconnect_rejects_every_pending:
  "connected (handleGatewayDisconnect reason s) = False
   \<and> pendingPrompts (handleGatewayDisconnect reason s) = []
   \<and> trace (handleGatewayDisconnect reason s) =
       trace s @ map (\<lambda>(k, p). Rejected (idempotencyKey p) (''Gateway disconnected: '' @ reason))
                   (pendingPrompts s)
   \<and> length (trace (handleGatewayDisconnect reason s)) = length (trace s) + length (pendingPrompts s)
   \<and> (\<forall>k \<in> fst ` set (pendingPrompts s).
         \<forall>r. sessions (handleGatewayDisconnect reason s) k = Some r \<longrightarrow> activeRun r = None)
   \<and> (\<forall>k. sessions (handleGatewayDisconnect reason s) k = None \<longleftrightarrow> sessions s k = None)"
proof -
  let ?s' = "handleGatewayDisconnect reason s"
  have tr: "trace ?s' = trace s @ map (\<lambda>(k, p). Rejected (idempotencyKey p)
              (''Gateway disconnected: '' @ reason)) (pendingPrompts s)"
    by (simp add: handleGatewayDisconnect_def Let_def rejectAll_trace)
  have se: "sessions ?s' k =
      (if k \<in> fst ` set (pendingPrompts s)
       then map_option (\<lambda>r. r\<lparr>activeRun := None\<rparr>) (sessions s k) else sessions s k)" for k
    by (simp add: handleGatewayDisconnect_def Let_def rejectAll_sessions)
  have c: "connected ?s' = False"
    by (simp add: handleGatewayDisconnect_def Let_def rejectAll_connected)
  have p: "pendingPrompts ?s' = []"
    by (simp add: handleGatewayDisconnect_def Let_def)
  have len: "length (trace ?s') = length (trace s) + length (pendingPrompts s)"
    by (simp add: tr)
  have slots: "\<forall>k \<in> fst ` set (pendingPrompts s). \<forall>r. sessions ?s' k = Some r \<longrightarrow> activeRun r = None"
  proof (intro ballI allI impI)
    fix k r assume "k \<in> fst ` set (pendingPrompts s)" and "sessions ?s' k = Some r"
    then have "map_option (\<lambda>r. r\<lparr>activeRun := None\<rparr>) (sessions s k) = Some r"
      by (simp add: se)
    then show "activeRun r = None" by (cases "sessions s k") auto
  qed
  have dom: "\<forall>k. sessions ?s' k = None \<longleftrightarrow> sessions s k = None"
    by (simp add: se)
  from c p tr len slots dom show ?thesis by (intro conjI)
qed

lemma examplePromptedBoth_eq:
  "examplePromptedBoth =
     \<lparr>sessions =
        [''s1'' \<mapsto> \<lparr>sessionId = ''s1'', sessionKey = ''acp:s1'', cwd = ''/tmp/x'',
                    activeRun = Some \<lparr>runId = ''run-1'',
                                       cancellationHandle = AbortController ''run-1''\<rparr>\<rparr>,
         ''s2'' \<mapsto> \<lparr>sessionId = ''s2'', sessionKey = ''acp:s2'', cwd = ''/tmp/y'',
                    activeRun = Some \<lparr>runId = ''run-2'',
                                       cancellationHandle = AbortController ''run-2''\<rparr>\<rparr>],
      pendingPrompts =
        [(''s1'', \<lparr>pendingSessionId = ''s1'', idempotencyKey = ''run-1'',
                   sentTextLength = None, sentText = None\<rparr>),
         (''s2'', \<lparr>pendingSessionId = ''s2'', idempotencyKey = ''run-2'',
                   sentTextLength = None, sentText = None\<rparr>)],
      connected = True,
      trace = [GatewayRequest (ChatSend ''acp:s1''
                 (''[Working directory: /tmp/x]'' @ [CHR 0x0A, CHR 0x0A] @ ''ping'') None ''run-1''),
               GatewayRequest (ChatSend ''acp:s2''
                 (''[Working directory: /tmp/y]'' @ [CHR 0x0A, CHR 0x0A] @ ''pong'') None ''run-2'')]\<rparr>"
  by (simp add: examplePromptedBoth_def examplePrompted_eq orElse_def prompt_def getSession_def
      abortController_def setActiveRun_def emit_def extractTextFromPrompt_def
      extractAttachmentsFromPrompt_def List.map_filter_def)

theorem disconnect_rejects_every_pending_witness:
  "fst ` set (pendingPrompts examplePromptedBoth) = {''s1'', ''s2''}
   \<and> pendingPrompts (handleGatewayDisconnect ''1006: gone'' examplePromptedBoth) = []
   \<and> trace (handleGatewayDisconnect ''1006: gone'' examplePromptedBoth) =
       trace examplePromptedBoth
       @ [Rejected ''run-1'' ''Gateway disconnected: 1006: gone'',
          Rejected ''run-2'' ''Gateway disconnected: 1006: gone'']
   \<and> (\<exists>r. sessions (handleGatewayDisconnect ''1006: gone'' examplePromptedBoth) ''s1'' = Some r
          \<and> activeRun r = None)
   \<and> (\<exists>r. sessions (handleGatewayDisconnect ''1006: gone'' examplePromptedBoth) ''s2'' = Some r
          \<and> activeRun r = None)"
proof -
  have keys: "fst ` set (pendingPrompts examplePromptedBoth) = {''s1'', ''s2''}"
    by (simp add: examplePromptedBoth_eq)
  have pp: "pendingPrompts examplePromptedBoth =
        [(''s1'', \<lparr>pendingSessionId = ''s1'', idempotencyKey = ''run-1'',
                   sentTextLength = None, sentText = None\<rparr>),
         (''s2'', \<lparr>pendingSessionId = ''s2'', idempotencyKey = ''run-2'',
                   sentTextLength = None, sentText = None\<rparr>)]"
    by (simp add: examplePromptedBoth_eq)
  have known: "sessions examplePromptedBoth ''s1'' \<noteq> None" "sessions examplePromptedBoth ''s2'' \<noteq> None"
    by (simp_all add: examplePromptedBoth_eq)
  note d = disconnect_rejects_every_pending [of "''1006: gone''" examplePromptedBoth]
  let ?s' = "handleGatewayDisconnect ''1006: gone'' examplePromptedBoth"
  from d keys have slots:
      "\<And>r. sessions ?s' ''s1'' = Some r \<Longrightarrow> activeRun r = None"
      "\<And>r. sessions ?s' ''s2'' = Some r \<Longrightarrow> activeRun r = None"
    by simp_all
  from d known have "sessions ?s' ''s1'' \<noteq> None" "sessions ?s' ''s2'' \<noteq> None"
    by simp_all
  then obtain r1 r2 where r: "sessions ?s' ''s1'' = Some r1" "sessions ?s' ''s2'' = Some r2"
    by blast
  with slots have "activeRun r1 = None" "activeRun r2 = None"
    by blast+
  with r have ex: "\<exists>r. sessions ?s' ''s1'' = Some r \<and> activeRun r = None"
      "\<exists>r. sessions ?s' ''s2'' = Some r \<and> activeRun r = None"
    by blast+
  from d have "pendingPrompts ?s' = []"
      "trace ?s' = trace examplePromptedBoth
         @ [Rejected ''run-1'' ''Gateway disconnected: 1006: gone'',
            Rejected ''run-2'' ''Gateway disconnected: 1006: gone'']"
    by (simp_all add: pp)
  with keys ex show ?thesis by (intro conjI)
qed


section \<open>Prompts\<close>

lemma setActiveRun_fields:
  "trace (setActiveRun sid rid h s) = trace s"
  "pendingPrompts (setActiveRun sid rid h s) = pendingPrompts s"
  "connected (setActiveRun sid rid h s) = connected s"
  by (simp_all add: setActiveRun_def split: option.splits)

lemma setActiveRun_sessions:
  "sessions (setActiveRun sid rid h s) sid' =
     (if sid' = sid
      then map_option (\<lambda>r. r\<lparr>activeRun := Some \<lparr>runId = rid, cancellationHandle = h\<rparr>\<rparr>)
             (sessions s sid)
      else sessions s sid')"
  by (simp add: setActiveRun_def split: option.splits)

lemma cancelActiveRun_fields:
  "pendingPrompts (cancelActiveRun sid s) = pendingPrompts s"
  "connected (cancelActiveRun sid s) = connected s"
  by (simp_all add: cancelActiveRun_def clearActiveRun_fields emit_fields split: option.splits)

lemma cancelActiveRun_trace:
  "trace (cancelActiveRun sid s) =
     trace s @ (case sessions s sid of
                  None \<Rightarrow> []
                | Some r \<Rightarrow> (case activeRun r of
                              None \<Rightarrow> []
                            | Some a \<Rightarrow> [Aborted (cancellationHandle a)]))"
  by (simp add: cancelActiveRun_def clearActiveRun_fields emit_fields split: option.splits)

lemma cancelActiveRun_sessions:
  "sessions (cancelActiveRun sid s) sid' =
     (if sid' = sid then map_option (\<lambda>r. r\<lparr>activeRun := None\<rparr>) (sessions s sid)
      else sessions s sid')"
  by (cases "sessions s sid")
     (auto simp: cancelActiveRun_def clearActiveRun_sessions emit_fields split: option.splits)

text \<open>What one \<^verbatim>\<open>prompt\<close> call on a known session leaves behind.\<close>

lemma prompt_known:
  assumes "getSession s sid = Some r"
  shows "\<exists>s' msg att.
           prompt sid blocks rid s = Inr s'
         \<and> sessions s' sid
             = Some (r\<lparr>activeRun := Some \<lparr>runId = rid, cancellationHandle = AbortController rid\<rparr>\<rparr>)
         \<and> (\<forall>sid'. sid' \<noteq> sid \<longrightarrow> sessions s' sid' = sessions s sid')
         \<and> pendingPrompts s'
             = mapSet sid \<lparr>pendingSessionId = sid, idempotencyKey = rid,
                           sentTextLength = None, sentText = None\<rparr> (pendingPrompts s)
         \<and> connected s' = connected s
         \<and> trace s'
             = trace s
               @ (case activeRun r of None \<Rightarrow> [] | Some a \<Rightarrow> [Aborted (cancellationHandle a)])
               @ [GatewayRequest (ChatSend (sessionKey r) msg att rid)]"
proof (cases "activeRun r")
  case None
  with assms show ?thesis
    by (simp add: prompt_def Let_def abortController_def getSession_def emit_fields
        setActiveRun_fields setActiveRun_sessions)
next
  case (Some a)
  with assms show ?thesis
    by (simp add: prompt_def Let_def abortController_def getSession_def emit_fields
        setActiveRun_fields setActiveRun_sessions cancelActiveRun_fields
        cancelActiveRun_trace cancelActiveRun_sessions)
qed

lemma prompt_unknown:
  "getSession s sid = None \<Longrightarrow> prompt sid blocks rid s = Inl (SessionNotFound sid)"
  by (simp add: prompt_def)

section \<open>Dispatch failure of the chat-send request\<close>

lemma chatSendCatch_shape:
  "trace (chatSendCatch sid rid err s) = trace s @ [Rejected rid err]"
  "pendingPrompts (chatSendCatch sid rid err s) = mapDelete sid (pendingPrompts s)"
  "sessions (chatSendCatch sid rid err s) sid'
     = (if sid' = sid then map_option (\<lambda>r. r\<lparr>activeRun := None\<rparr>) (sessions s sid)
        else sessions s sid')"
  by (simp_all add: chatSendCatch_def Let_def emit_fields clearActiveRun_fields
      clearActiveRun_sessions)

text \<open>
  Claim C6. A \<^verbatim>\<open>prompt\<close> on a known session records a pending entry and an active run for
  its fresh run id. When the \<^verbatim>\<open>chat.send\<close> request it issued is rejected, the handler
  that \<^verbatim>\<open>prompt\<close> attached runs as one step: after it the pending table has no entry for
  the session, the session's active-run slot is empty, and the only effect of the step is
  the rejection of the promise of that prompt with the request's error.
\<close>

theorem dispatch_failure_rejects_and_releases:
  assumes "prompt sid blocks rid s = Inr s1"
  shows "mapGet (pendingPrompts s1) sid
           = Some \<lparr>pendingSessionId = sid, idempotencyKey = rid,
                   sentTextLength = None, sentText = None\<rparr>
       \<and> (\<exists>r. sessions s1 sid = Some r \<and> map_option runId (activeRun r) = Some rid)
       \<and> trace (chatSendCatch sid rid err s1) = trace s1 @ [Rejected rid err]
       \<and> mapGet (pendingPrompts (chatSendCatch sid rid err s1)) sid = None
       \<and> (\<exists>r. sessions (chatSendCatch sid rid err s1) sid = Some r \<and> activeRun r = None)
       \<and> (\<forall>sid'. sid' \<noteq> sid \<longrightarrow>
             sessions (chatSendCatch sid rid err s1) sid' = sessions s1 sid'
           \<and> mapGet (pendingPrompts (chatSendCatch sid rid err s1)) sid'
               = mapGet (pendingPrompts s1) sid')"
proof -
  from assms obtain r where r: "getSession s sid = Some r"
    by (cases "getSession s sid") (simp_all add: prompt_def)
  from prompt_known[OF r, of blocks rid] assms
  have s1: "sessions s1 sid
             = Some (r\<lparr>activeRun := Some \<lparr>runId = rid, cancellationHandle = AbortController rid\<rparr>\<rparr>)"
      "pendingPrompts s1
             = mapSet sid \<lparr>pendingSessionId = sid, idempotencyKey = rid,
                           sentTextLength = None, sentText = None\<rparr> (pendingPrompts s)"
    by auto
  show ?thesis
    by (simp add: s1 chatSendCatch_shape mapGet_mapSet mapGet_mapDelete_same
        mapGet_mapDelete_other)
qed

theorem dispatch_failure_rejects_and_releases_witness:
  "prompt ''s1'' [TextBlock ''ping''] ''run-1'' exampleState = Inr examplePrompted
   \<and> trace (chatSendCatch ''s1'' ''run-1'' ''gateway not connected'' examplePrompted)
       = trace examplePrompted @ [Rejected ''run-1'' ''gateway not connected'']
   \<and> mapGet (pendingPrompts (chatSendCatch ''s1'' ''run-1'' ''gateway not connected''
                                examplePrompted)) ''s1'' = None
   \<and> (\<exists>r. sessions (chatSendCatch ''s1'' ''run-1'' ''gateway not connected'' examplePrompted) ''s1''
             = Some r \<and> activeRun r = None)"
proof -
  have p: "prompt ''s1'' [TextBlock ''ping''] ''run-1'' exampleState = Inr examplePrompted"
  proof -
    have "getSession exampleState ''s1'' \<noteq> None"
      by (simp add: getSession_def exampleState_def)
    then obtain s' where "prompt ''s1'' [TextBlock ''ping''] ''run-1'' exampleState = Inr s'"
      using prompt_known by blast
    then show ?thesis by (simp add: examplePrompted_def orElse_def)
  qed
  show ?thesis
    using p dispatch_failure_rejects_and_releases [OF p, of "''gateway not connected''"]
    by simp
qed


section \<open>Session mode\<close>

text \<open>
  Claim C8. \<^verbatim>\<open>setSessionMode\<close> on an unknown session fails with SessionNotFound. On a known
  session it returns successfully whether the Gateway patch request resolves or is
  rejected, whatever the error: the result does not depend on the request's outcome, and
  the sessions and the pending table are as before.
\<close>

theorem setSessionMode_never_propagates_patch_failure:
  "(getSession s sid = None \<longrightarrow>
      setSessionMode sid modeId outcome s = Inl (SessionNotFound sid))
   \<and> (getSession s sid \<noteq> None \<longrightarrow>
        (\<exists>s'. setSessionMode sid modeId outcome s = Inr s'
           \<and> setSessionMode sid modeId RpcOk s = Inr s'
           \<and> sessions s' = sessions s \<and> pendingPrompts s' = pendingPrompts s))"
  by (cases outcome)
     (auto simp: setSessionMode_def gatewayRequest_def emit_def)

theorem setSessionMode_never_propagates_patch_failure_witness:
  "setSessionMode ''nonexistent'' ''high'' RpcOk exampleState = Inl (SessionNotFound ''nonexistent'')
   \<and> (\<exists>s'. setSessionMode ''s1'' ''high'' (RpcError ''patch failed'') exampleState = Inr s'
          \<and> setSessionMode ''s1'' ''high'' RpcOk exampleState = Inr s')"
proof -
  have a: "getSession exampleState ''nonexistent'' = None"
    by (simp add: getSession_def exampleState_def)
  have b: "getSession exampleState ''s1'' \<noteq> None"
    by (simp add: getSession_def exampleState_def)
  from setSessionMode_never_propagates_patch_failure
         [of exampleState "''nonexistent''" "''high''" RpcOk] a
  have 1: "setSessionMode ''nonexistent'' ''high'' RpcOk exampleState
             = Inl (SessionNotFound ''nonexistent'')"
    by blast
  from setSessionMode_never_propagates_patch_failure
         [of exampleState "''s1''" "''high''" "RpcError ''patch failed''"] b
  have 2: "\<exists>s'. setSessionMode ''s1'' ''high'' (RpcError ''patch failed'') exampleState = Inr s'
          \<and> setSessionMode ''s1'' ''high'' RpcOk exampleState = Inr s'"
    by blast
  from 1 2 show ?thesis by (rule conjI)
qed

section \<open>Reconnection\<close>






section \<open>Streaming deltas\<close>

lemma handleChatEvent_delta:
  assumes "payload evt = Some pl" "payloadSessionKey pl = Some key" "key \<noteq> []"
    "findPendingBySessionKey s key = Some p" "payloadState pl = Some ''delta''"
    "payloadMessage pl = Some m"
  shows "handleChatEvent evt s = handleDelta (pendingSessionId p) m s"
  using assms by (simp add: handleChatEvent_def)

lemma startsWith_nonempty: "startsWith a b \<Longrightarrow> b \<noteq> [] \<Longrightarrow> a \<noteq> []"
  by (auto simp: startsWith_def)

text \<open>The three outcomes of the delta branch, for the entry stored under the session id.\<close>

lemma handleDelta_cases:
  assumes "mapGet (pendingPrompts s) sid = Some a"
  shows "handleDelta sid m s =
     (if length (fullTextOf m) \<le> storedLength a then s
      else if storedText a \<noteq> []
              \<and> startsWith (drop (storedLength a) (fullTextOf m)) (take 20 (storedText a))
      then s
      else emit (SessionUpdate sid (drop (storedLength a) (fullTextOf m)))
             (s\<lparr>pendingPrompts :=
                  mapSet sid (a\<lparr>sentTextLength := Some (length (fullTextOf m)),
                                sentText := Some (fullTextOf m)\<rparr>)
                    (pendingPrompts s)\<rparr>))"
proof -
  have tk: "take (min 20 (length t)) t = take 20 t" for t :: string
    by (simp add: min_def)
  show ?thesis
    using assms
    by (simp add: handleDelta_def Let_def storedLength_def storedText_def tk
        split: option.splits)
qed

text \<open>
  Claim C5. When the entry of a pending prompt holds previously sent text (not empty) and
  the new suffix of a delta event, that is the cumulative text beyond the stored length,
  begins with the first 20 characters of that sent text (with all of it when it is
  shorter), \<^verbatim>\<open>handleChatEvent\<close> returns the state as it was: no notification is emitted
  and the stored length and text are unchanged.
\<close>

theorem duplicate_delta_is_dropped:
  assumes "pendingWf s"
    and "payload evt = Some pl" and "payloadSessionKey pl = Some key" and "key \<noteq> []"
    and "findPendingBySessionKey s key = Some p"
    and "payloadState pl = Some ''delta''" and "payloadMessage pl = Some m"
    and "storedText p \<noteq> []"
    and "startsWith (drop (storedLength p) (fullTextOf m)) (take 20 (storedText p))"
  shows "handleChatEvent evt s = s"
proof -
  have g: "mapGet (pendingPrompts s) (pendingSessionId p) = Some p"
    using assms(1,5) by (rule findPending_wf(3))
  have "handleChatEvent evt s = handleDelta (pendingSessionId p) m s"
    using assms(2-7) by (rule handleChatEvent_delta)
  also have "\<dots> = s"
    using assms(8,9) by (simp add: handleDelta_cases[OF g])
  finally show ?thesis .
qed

lemma exampleSentHa_eq:
  "exampleSentHa =
     examplePrompted
       \<lparr>pendingPrompts :=
          [(''s1'', \<lparr>pendingSessionId = ''s1'', idempotencyKey = ''run-1'',
                     sentTextLength = Some 2, sentText = Some ''ha''\<rparr>)],
        trace := trace examplePrompted @ [SessionUpdate ''s1'' ''ha'']\<rparr>"
  by (simp add: exampleSentHa_def deltaEvent_def chatEvent_def textMessage_def
      handleChatEvent_def findPendingBySessionKey_def handleDelta_def fullTextOf_def
      examplePrompted_eq emit_def startsWith_def Let_def)

theorem duplicate_delta_is_dropped_witness:
  "storedText \<lparr>pendingSessionId = ''s1'', idempotencyKey = ''run-1'',
               sentTextLength = Some 2, sentText = Some ''ha''\<rparr> = ''ha''
   \<and> startsWith (drop 2 ''haha'') (take 20 ''ha'')
   \<and> handleChatEvent (deltaEvent ''acp:s1'' ''haha'') exampleSentHa = exampleSentHa"
proof -
  let ?p = "\<lparr>pendingSessionId = ''s1'', idempotencyKey = ''run-1'',
             sentTextLength = Some 2, sentText = Some ''ha''\<rparr>"
  have wf: "pendingWf exampleSentHa"
    by (simp add: exampleSentHa_eq examplePrompted_eq pendingWf_def)
  have f: "findPendingBySessionKey exampleSentHa ''acp:s1'' = Some ?p"
    by (simp add: exampleSentHa_eq examplePrompted_eq findPendingBySessionKey_def)
  have pl: "payload (deltaEvent ''acp:s1'' ''haha'')
              = Some \<lparr>payloadSessionKey = Some ''acp:s1'', payloadState = Some ''delta'',
                      payloadMessage = Some (textMessage ''haha'')\<rparr>"
    by (simp add: deltaEvent_def chatEvent_def)
  have st: "storedText ?p = ''ha''" "storedLength ?p = 2"
    by (simp_all add: storedText_def storedLength_def)
  have ft: "fullTextOf (textMessage ''haha'') = ''haha''"
    by (simp add: fullTextOf_def textMessage_def)
  have sw: "startsWith (drop 2 ''haha'') (take 20 ''ha'')"
    by (simp add: startsWith_def)
  have ne: "storedText ?p \<noteq> []"
    by (simp add: st)
  have sw': "startsWith (drop (storedLength ?p) (fullTextOf (textMessage ''haha'')))
               (take 20 (storedText ?p))"
    unfolding st ft by (rule sw)
  have "handleChatEvent (deltaEvent ''acp:s1'' ''haha'') exampleSentHa = exampleSentHa"
    by (rule duplicate_delta_is_dropped [OF wf pl _ _ f _ _ ne sw']) simp_all
  with st(1) sw show ?thesis by (intro conjI)
qed


text \<open>
  Claim C9. While no text has been sent for a run (the stored length is 0 and the stored
  text is empty, as \<^verbatim>\<open>prompt\<close> leaves them), a delta event with non-empty cumulative text is
  forwarded in full: the duplicate guard cannot fire, the one new effect is the session
  update carrying the whole cumulative text, and the entry then stores that text and its
  length.
\<close>

theorem first_delta_is_forwarded_in_full:
  assumes "pendingWf s"
    and "payload evt = Some pl" and "payloadSessionKey pl = Some key" and "key \<noteq> []"
    and "findPendingBySessionKey s key = Some p"
    and "payloadState pl = Some ''delta''" and "payloadMessage pl = Some m"
    and "storedLength p = 0" and "storedText p = []"
    and "fullTextOf m \<noteq> []"
  shows "handleChatEvent evt s =
           emit (SessionUpdate (pendingSessionId p) (fullTextOf m))
             (s\<lparr>pendingPrompts :=
                  mapSet (pendingSessionId p)
                    (p\<lparr>sentTextLength := Some (length (fullTextOf m)),
                       sentText := Some (fullTextOf m)\<rparr>)
                    (pendingPrompts s)\<rparr>)
       \<and> trace (handleChatEvent evt s)
           = trace s @ [SessionUpdate (pendingSessionId p) (fullTextOf m)]
       \<and> mapGet (pendingPrompts (handleChatEvent evt s)) (pendingSessionId p)
           = Some (p\<lparr>sentTextLength := Some (length (fullTextOf m)),
                      sentText := Some (fullTextOf m)\<rparr>)"
proof -
  have g: "mapGet (pendingPrompts s) (pendingSessionId p) = Some p"
    using assms(1,5) by (rule findPending_wf(3))
  have "handleChatEvent evt s = handleDelta (pendingSessionId p) m s"
    using assms(2-7) by (rule handleChatEvent_delta)
  also have "\<dots> = emit (SessionUpdate (pendingSessionId p) (fullTextOf m))
             (s\<lparr>pendingPrompts :=
                  mapSet (pendingSessionId p)
                    (p\<lparr>sentTextLength := Some (length (fullTextOf m)),
                       sentText := Some (fullTextOf m)\<rparr>)
                    (pendingPrompts s)\<rparr>)"
    using assms(8-10) by (simp add: handleDelta_cases[OF g])
  finally have eq: "handleChatEvent evt s = emit (SessionUpdate (pendingSessionId p) (fullTextOf m))
             (s\<lparr>pendingPrompts :=
                  mapSet (pendingSessionId p)
                    (p\<lparr>sentTextLength := Some (length (fullTextOf m)),
                       sentText := Some (fullTextOf m)\<rparr>)
                    (pendingPrompts s)\<rparr>)" .
  show ?thesis
    unfolding eq by (simp add: emit_fields mapGet_mapSet)
qed

theorem first_delta_is_forwarded_in_full_witness:
  "storedLength \<lparr>pendingSessionId = ''s1'', idempotencyKey = ''run-1'',
                 sentTextLength = None, sentText = None\<rparr> = 0
   \<and> trace (handleChatEvent (deltaEvent ''acp:s1'' ''pong'') examplePrompted)
       = trace examplePrompted @ [SessionUpdate ''s1'' ''pong'']
   \<and> mapGet (pendingPrompts (handleChatEvent (deltaEvent ''acp:s1'' ''pong'') examplePrompted)) ''s1''
       = Some \<lparr>pendingSessionId = ''s1'', idempotencyKey = ''run-1'',
               sentTextLength = Some 4, sentText = Some ''pong''\<rparr>"
proof -
  let ?p = "\<lparr>pendingSessionId = ''s1'', idempotencyKey = ''run-1'',
             sentTextLength = None, sentText = None\<rparr>"
  have wf: "pendingWf examplePrompted"
    by (simp add: examplePrompted_eq pendingWf_def)
  have f: "findPendingBySessionKey examplePrompted ''acp:s1'' = Some ?p"
    by (simp add: examplePrompted_eq findPendingBySessionKey_def)
  have pl: "payload (deltaEvent ''acp:s1'' ''pong'')
              = Some \<lparr>payloadSessionKey = Some ''acp:s1'', payloadState = Some ''delta'',
                      payloadMessage = Some (textMessage ''pong'')\<rparr>"
    by (simp add: deltaEvent_def chatEvent_def)
  have st: "storedLength ?p = 0" "storedText ?p = []"
    by (simp_all add: storedText_def storedLength_def)
  have ft: "fullTextOf (textMessage ''pong'') = ''pong''"
    by (simp add: fullTextOf_def textMessage_def)
  have ne: "fullTextOf (textMessage ''pong'') \<noteq> []"
    by (simp add: ft)
  note t = first_delta_is_forwarded_in_full [OF wf pl _ _ f _ _ st ne]
  have "trace (handleChatEvent (deltaEvent ''acp:s1'' ''pong'') examplePrompted)
       = trace examplePrompted @ [SessionUpdate ''s1'' ''pong'']"
    using t[THEN conjunct2, THEN conjunct1] by (simp add: ft)
  moreover have "mapGet (pendingPrompts (handleChatEvent (deltaEvent ''acp:s1'' ''pong'')
                    examplePrompted)) ''s1''
       = Some \<lparr>pendingSessionId = ''s1'', idempotencyKey = ''run-1'',
               sentTextLength = Some 4, sentText = Some ''pong''\<rparr>"
    using t[THEN conjunct2, THEN conjunct2] by (simp add: ft eval_nat_numeral)
  ultimately show ?thesis using st(1) by (intro conjI)
qed


section \<open>Suffix forwarding\<close>

lemma findPendingIn_mapSet:
  assumes "findPendingIn reg key ps = Some p"
    and "list_all (\<lambda>(k, q). pendingSessionId q = k) ps"
  shows "findPendingIn reg key (mapSet (pendingSessionId p) v ps) = Some v"
  using assms
proof (induction reg key ps rule: findPendingIn.induct)
  case (1 reg key)
  then show ?case by simp
next
  case (2 reg key sid q rest)
  show ?case
  proof (cases "map_option sessionKey (reg sid) = Some key")
    case True
    with 2(2) have "q = p" by auto
    with 2(3) have "pendingSessionId p = sid" by simp
    with True show ?thesis by auto
  next
    case False
    with 2(2) have f: "findPendingIn reg key rest = Some p" by (auto split: if_splits)
    from 2(3) have wfr: "list_all (\<lambda>(k, q). pendingSessionId q = k) rest" by simp
    from findPendingIn_Some[OF f] obtain k where k: "(k, p) \<in> set rest"
        "map_option sessionKey (reg k) = Some key" by blast
    with wfr have "pendingSessionId p = k" by (auto simp: list_all_iff)
    with k(2) False have ne: "sid \<noteq> pendingSessionId p" by auto
    have "findPendingIn reg key (mapSet (pendingSessionId p) v rest) = Some v"
      using 2(1)[OF False f wfr] .
    with False ne show ?thesis by auto
  qed
qed

lemma mapSet_keys: "mapGet ps k = Some a \<Longrightarrow> map fst (mapSet k v ps) = map fst ps"
  by (induction ps) (auto split: if_splits)

lemma mapSet_list_all:
  "list_all P ps \<Longrightarrow> P (k, v) \<Longrightarrow> list_all P (mapSet k v ps)"
  by (induction ps) auto

text \<open>A delta that is forwarded: the state after it, seen from the next event.\<close>

lemma delta_forwarded_step:
  assumes wf: "pendingWf s" and key: "key \<noteq> []"
    and f: "findPendingBySessionKey s key = Some p"
    and len: "storedLength p < length t"
    and ng: "\<not> (storedText p \<noteq> [] \<and> startsWith (drop (storedLength p) t) (take 20 (storedText p)))"
  shows "pendingWf (handleChatEvent (deltaEvent key t) s)"
    and "findPendingBySessionKey (handleChatEvent (deltaEvent key t) s) key
           = Some (p\<lparr>sentTextLength := Some (length t), sentText := Some t\<rparr>)"
    and "trace (handleChatEvent (deltaEvent key t) s)
           = trace s @ [SessionUpdate (pendingSessionId p) (drop (storedLength p) t)]"
proof -
  let ?sid = "pendingSessionId p"
  let ?p' = "p\<lparr>sentTextLength := Some (length t), sentText := Some t\<rparr>"
  let ?s' = "emit (SessionUpdate ?sid (drop (storedLength p) t))
               (s\<lparr>pendingPrompts := mapSet ?sid ?p' (pendingPrompts s)\<rparr>)"
  have g: "mapGet (pendingPrompts s) ?sid = Some p"
    using wf f by (rule findPending_wf(3))
  have ft: "fullTextOf (textMessage t) = t"
    by (simp add: fullTextOf_def textMessage_def)
  have "handleChatEvent (deltaEvent key t) s = handleDelta ?sid (textMessage t) s"
    by (rule handleChatEvent_delta
          [where pl = "\<lparr>payloadSessionKey = Some key, payloadState = Some ''delta'',
                        payloadMessage = Some (textMessage t)\<rparr>", OF _ _ key f])
       (simp_all add: deltaEvent_def chatEvent_def)
  also have "\<dots> = ?s'"
    using len ng by (auto simp: handleDelta_cases[OF g] ft)
  finally have eq: "handleChatEvent (deltaEvent key t) s = ?s'" .
  have wfl: "list_all (\<lambda>(k, q). pendingSessionId q = k) (pendingPrompts s)"
    and dist: "distinct (map fst (pendingPrompts s))"
    using wf by (simp_all add: pendingWf_def)
  show "pendingWf (handleChatEvent (deltaEvent key t) s)"
    unfolding eq pendingWf_def
    using dist wfl by (simp add: emit_fields mapSet_keys[OF g] mapSet_list_all)
  show "findPendingBySessionKey (handleChatEvent (deltaEvent key t) s) key = Some ?p'"
    unfolding eq findPendingBySessionKey_def
    using f wfl by (simp add: emit_fields findPendingIn_mapSet findPendingBySessionKey_def)
  show "trace (handleChatEvent (deltaEvent key t) s)
           = trace s @ [SessionUpdate ?sid (drop (storedLength p) t)]"
    unfolding eq by (simp add: emit_fields)
qed

lemma delta_not_longer_step:
  assumes wf: "pendingWf s" and key: "key \<noteq> []"
    and f: "findPendingBySessionKey s key = Some p"
    and len: "length t \<le> storedLength p"
  shows "handleChatEvent (deltaEvent key t) s = s"
proof -
  have g: "mapGet (pendingPrompts s) (pendingSessionId p) = Some p"
    using wf f by (rule findPending_wf(3))
  have ft: "fullTextOf (textMessage t) = t"
    by (simp add: fullTextOf_def textMessage_def)
  have "handleChatEvent (deltaEvent key t) s = handleDelta (pendingSessionId p) (textMessage t) s"
    by (rule handleChatEvent_delta
          [where pl = "\<lparr>payloadSessionKey = Some key, payloadState = Some ''delta'',
                        payloadMessage = Some (textMessage t)\<rparr>", OF _ _ key f])
       (simp_all add: deltaEvent_def chatEvent_def)
  also have "\<dots> = s"
    using len by (simp add: handleDelta_cases[OF g] ft)
  finally show ?thesis .
qed

text \<open>Four cumulative payloads of lengths 5, 12, 12 and 20 on a fresh entry.\<close>

lemma four_deltas:
  assumes wf: "pendingWf s" and key: "key \<noteq> []"
    and f: "findPendingBySessionKey s key = Some p"
    and fresh: "storedLength p = 0" "storedText p = []"
    and l: "length t1 = 5" "length t2 = 12" "length t3 = 12" "length t4 = 20"
    and ng: "\<not> startsWith (drop 5 t2) t1" "\<not> startsWith (drop 12 t4) t2"
  shows "trace (feedDeltas key [t1, t2, t3, t4] s)
           = trace s @ [SessionUpdate (pendingSessionId p) t1,
                        SessionUpdate (pendingSessionId p) (drop 5 t2),
                        SessionUpdate (pendingSessionId p) (drop 12 t4)]"
proof -
  let ?sid = "pendingSessionId p"
  let ?p1 = "p\<lparr>sentTextLength := Some (length t1), sentText := Some t1\<rparr>"
  let ?p2 = "?p1\<lparr>sentTextLength := Some (length t2), sentText := Some t2\<rparr>"
  let ?s1 = "handleChatEvent (deltaEvent key t1) s"
  let ?s2 = "handleChatEvent (deltaEvent key t2) ?s1"
  let ?s3 = "handleChatEvent (deltaEvent key t3) ?s2"
  let ?s4 = "handleChatEvent (deltaEvent key t4) ?s3"
  have a1: "storedLength p < length t1" by (simp add: fresh l)
  have b1: "\<not> (storedText p \<noteq> [] \<and> startsWith (drop (storedLength p) t1) (take 20 (storedText p)))"
    by (simp add: fresh)
  note s1 = delta_forwarded_step[OF wf key f a1 b1]
  have a2: "storedLength ?p1 < length t2" by (simp add: storedLength_def l)
  have b2: "\<not> (storedText ?p1 \<noteq> []
               \<and> startsWith (drop (storedLength ?p1) t2) (take 20 (storedText ?p1)))"
    using ng(1) by (simp add: storedLength_def storedText_def l)
  note s2 = delta_forwarded_step[OF s1(1) key s1(2) a2 b2]
  have a3: "length t3 \<le> storedLength ?p2" by (simp add: storedLength_def l)
  have s3: "?s3 = ?s2"
    by (rule delta_not_longer_step[OF s2(1) key s2(2) a3])
  have a4: "storedLength ?p2 < length t4" by (simp add: storedLength_def l)
  have b4: "\<not> (storedText ?p2 \<noteq> []
               \<and> startsWith (drop (storedLength ?p2) t4) (take 20 (storedText ?p2)))"
    using ng(2) by (simp add: storedLength_def storedText_def l)
  note s4 = delta_forwarded_step[OF s2(1) key s2(2) a4 b4]
  have "trace (feedDeltas key [t1, t2, t3, t4] s) = trace ?s4" by simp
  also have "\<dots> = trace (handleChatEvent (deltaEvent key t4) ?s2)" by (simp only: s3)
  also have "\<dots> = trace ?s2 @ [SessionUpdate ?sid (drop 12 t4)]"
    using s4(3) by (simp add: storedLength_def l)
  also have "trace ?s2 = trace ?s1 @ [SessionUpdate ?sid (drop 5 t2)]"
    using s2(3) by (simp add: storedLength_def l)
  also have "trace ?s1 = trace s @ [SessionUpdate ?sid t1]"
    using s1(3) by (simp add: fresh)
  finally show ?thesis by simp
qed

text \<open>
  Claim C1, as stated, fails: the suffix beyond the stored length is not always
  forwarded. After the cumulative text "ha" has been forwarded, the delta "haha" has the
  new suffix "ha", which begins with the sent text; the duplicate guard drops the event,
  so nothing is forwarded and the stored length and text stay 2 and "ha". Likewise the
  payloads "hello", "hellohello, ", "hellohello, " and "hellohello, world!!!" have the
  lengths 5, 12, 12 and 20, and only the first is forwarded.
\<close>

theorem suffix_not_always_forwarded:
  "mapGet (pendingPrompts exampleSentHa) ''s1''
     = Some \<lparr>pendingSessionId = ''s1'', idempotencyKey = ''run-1'',
             sentTextLength = Some 2, sentText = Some ''ha''\<rparr>
   \<and> trace (handleChatEvent (deltaEvent ''acp:s1'' ''haha'') exampleSentHa) = trace exampleSentHa
   \<and> trace (handleChatEvent (deltaEvent ''acp:s1'' ''haha'') exampleSentHa)
       \<noteq> trace exampleSentHa @ [SessionUpdate ''s1'' (drop 2 ''haha'')]
   \<and> mapGet (pendingPrompts (handleChatEvent (deltaEvent ''acp:s1'' ''haha'') exampleSentHa)) ''s1''
       = Some \<lparr>pendingSessionId = ''s1'', idempotencyKey = ''run-1'',
               sentTextLength = Some 2, sentText = Some ''ha''\<rparr>
   \<and> map length [''hello'', ''hellohello, '', ''hellohello, '', ''hellohello, world!!!'']
       = [5, 12, 12, 20]
   \<and> chunksOf ''s1''
        (trace (feedDeltas ''acp:s1''
                  [''hello'', ''hellohello, '', ''hellohello, '', ''hellohello, world!!!'']
                  examplePrompted))
       = [''hello'']"
proof -
  have drop: "handleChatEvent (deltaEvent ''acp:s1'' ''haha'') exampleSentHa = exampleSentHa"
    by (simp add: exampleSentHa_eq examplePrompted_eq deltaEvent_def chatEvent_def
        textMessage_def handleChatEvent_def findPendingBySessionKey_def handleDelta_def
        fullTextOf_def startsWith_def Let_def)
  have run: "feedDeltas ''acp:s1''
                  [''hello'', ''hellohello, '', ''hellohello, '', ''hellohello, world!!!'']
                  examplePrompted
        = examplePrompted
           \<lparr>pendingPrompts :=
              [(''s1'', \<lparr>pendingSessionId = ''s1'', idempotencyKey = ''run-1'',
                         sentTextLength = Some 5, sentText = Some ''hello''\<rparr>)],
            trace := trace examplePrompted @ [SessionUpdate ''s1'' ''hello'']\<rparr>"
    by (simp add: examplePrompted_eq deltaEvent_def chatEvent_def
        textMessage_def handleChatEvent_def findPendingBySessionKey_def handleDelta_def
        fullTextOf_def startsWith_def Let_def emit_def)
  show ?thesis
    unfolding drop run by (simp add: exampleSentHa_eq examplePrompted_eq)
qed

text \<open>
  Claim C1, amended. For a delta event that finds a pending prompt with stored length
  \<open>n\<close> and stored text \<open>t\<close>: when the cumulative text is longer than \<open>n\<close> and the
  duplicate guard does not fire (\<open>t\<close> is empty, or the suffix beyond \<open>n\<close> does not begin
  with the first 20 characters of \<open>t\<close>), the translator forwards exactly that suffix and
  then stores the new length and text; when the text is not longer than \<open>n\<close>, or the
  guard fires, it forwards nothing and stores nothing. So, on a fresh entry, cumulative
  payloads of lengths 5, 12, 12 and 20 on which the guard does not fire are forwarded as
  chunks of lengths 5, 7 and 8, the third payload forwarding nothing.
\<close>

theorem delta_forwards_suffix_unless_guarded:
  assumes "pendingWf s" and "key \<noteq> []" and "findPendingBySessionKey s key = Some p"
  shows "(payload evt = Some pl \<and> payloadSessionKey pl = Some key
            \<and> payloadState pl = Some ''delta'' \<and> payloadMessage pl = Some m
          \<longrightarrow>
            (storedLength p < length (fullTextOf m)
               \<and> \<not> (storedText p \<noteq> []
                     \<and> startsWith (drop (storedLength p) (fullTextOf m)) (take 20 (storedText p)))
             \<longrightarrow> handleChatEvent evt s =
                   emit (SessionUpdate (pendingSessionId p) (drop (storedLength p) (fullTextOf m)))
                     (s\<lparr>pendingPrompts :=
                          mapSet (pendingSessionId p)
                            (p\<lparr>sentTextLength := Some (length (fullTextOf m)),
                               sentText := Some (fullTextOf m)\<rparr>)
                            (pendingPrompts s)\<rparr>))
          \<and> (length (fullTextOf m) \<le> storedLength p
               \<or> (storedText p \<noteq> []
                    \<and> startsWith (drop (storedLength p) (fullTextOf m)) (take 20 (storedText p)))
             \<longrightarrow> handleChatEvent evt s = s))
       \<and> (storedLength p = 0 \<and> storedText p = []
            \<and> length t1 = 5 \<and> length t2 = 12 \<and> length t3 = 12 \<and> length t4 = 20
            \<and> \<not> startsWith (drop 5 t2) t1 \<and> \<not> startsWith (drop 12 t4) t2
          \<longrightarrow> trace (feedDeltas key [t1, t2, t3, t4] s)
                = trace s @ [SessionUpdate (pendingSessionId p) t1,
                             SessionUpdate (pendingSessionId p) (drop 5 t2),
                             SessionUpdate (pendingSessionId p) (drop 12 t4)]
            \<and> map length [t1, drop 5 t2, drop 12 t4] = [5, 7, 8])"
proof (intro conjI impI)
  assume e: "payload evt = Some pl \<and> payloadSessionKey pl = Some key
            \<and> payloadState pl = Some ''delta'' \<and> payloadMessage pl = Some m"
  have g: "mapGet (pendingPrompts s) (pendingSessionId p) = Some p"
    using assms(1,3) by (rule findPending_wf(3))
  have d: "handleChatEvent evt s = handleDelta (pendingSessionId p) m s"
    using e assms(2,3) handleChatEvent_delta[of evt pl key s p m] by blast
  { assume "storedLength p < length (fullTextOf m)
               \<and> \<not> (storedText p \<noteq> []
                     \<and> startsWith (drop (storedLength p) (fullTextOf m)) (take 20 (storedText p)))"
    then show "handleChatEvent evt s =
                   emit (SessionUpdate (pendingSessionId p) (drop (storedLength p) (fullTextOf m)))
                     (s\<lparr>pendingPrompts :=
                          mapSet (pendingSessionId p)
                            (p\<lparr>sentTextLength := Some (length (fullTextOf m)),
                               sentText := Some (fullTextOf m)\<rparr>)
                            (pendingPrompts s)\<rparr>)"
      unfolding d by (auto simp: handleDelta_cases[OF g]) }
  { assume "length (fullTextOf m) \<le> storedLength p
               \<or> (storedText p \<noteq> []
                    \<and> startsWith (drop (storedLength p) (fullTextOf m)) (take 20 (storedText p)))"
    then show "handleChatEvent evt s = s"
      unfolding d by (auto simp: handleDelta_cases[OF g]) }
next
  assume a: "storedLength p = 0 \<and> storedText p = []
            \<and> length t1 = 5 \<and> length t2 = 12 \<and> length t3 = 12 \<and> length t4 = 20
            \<and> \<not> startsWith (drop 5 t2) t1 \<and> \<not> startsWith (drop 12 t4) t2"
  then show "trace (feedDeltas key [t1, t2, t3, t4] s)
                = trace s @ [SessionUpdate (pendingSessionId p) t1,
                             SessionUpdate (pendingSessionId p) (drop 5 t2),
                             SessionUpdate (pendingSessionId p) (drop 12 t4)]"
    by (intro four_deltas[OF assms]) simp_all
  from a show "map length [t1, drop 5 t2, drop 12 t4] = [5, 7, 8]" by simp
qed

theorem delta_forwards_suffix_unless_guarded_witness:
  "pendingWf examplePrompted
   \<and> handleChatEvent (deltaEvent ''acp:s1'' ''pong'') examplePrompted
       = emit (SessionUpdate ''s1'' ''pong'')
           (examplePrompted
              \<lparr>pendingPrompts :=
                 [(''s1'', \<lparr>pendingSessionId = ''s1'', idempotencyKey = ''run-1'',
                            sentTextLength = Some 4, sentText = Some ''pong''\<rparr>)]\<rparr>)
   \<and> handleChatEvent (deltaEvent ''acp:s1'' []) examplePrompted = examplePrompted
   \<and> trace (feedDeltas ''acp:s1''
              [''hello'', ''hello, world'', ''hello, world'', ''hello, world and bye'']
              examplePrompted)
       = trace examplePrompted
         @ [SessionUpdate ''s1'' ''hello'', SessionUpdate ''s1'' '', world'',
            SessionUpdate ''s1'' '' and bye'']"
proof -
  let ?p = "\<lparr>pendingSessionId = ''s1'', idempotencyKey = ''run-1'',
             sentTextLength = None, sentText = None\<rparr>"
  have wf: "pendingWf examplePrompted"
    by (simp add: examplePrompted_eq pendingWf_def)
  have k: "''acp:s1'' \<noteq> []" by simp
  have f: "findPendingBySessionKey examplePrompted ''acp:s1'' = Some ?p"
    by (simp add: examplePrompted_eq findPendingBySessionKey_def)
  have pp: "pendingPrompts examplePrompted = [(''s1'', ?p)]"
    by (simp add: examplePrompted_eq)
  have st: "storedLength ?p = 0" "storedText ?p = []"
    by (simp_all add: storedText_def storedLength_def)
  have ft: "fullTextOf (textMessage t) = t" for t
    by (simp add: fullTextOf_def textMessage_def)
  note t1 = delta_forwards_suffix_unless_guarded [OF wf k f,
      of "deltaEvent ''acp:s1'' ''pong''"
         "\<lparr>payloadSessionKey = Some ''acp:s1'', payloadState = Some ''delta'',
           payloadMessage = Some (textMessage ''pong'')\<rparr>"
         "textMessage ''pong''"
         "''hello''" "''hello, world''" "''hello, world''" "''hello, world and bye''"]
  note t2 = delta_forwards_suffix_unless_guarded [OF wf k f,
      of "deltaEvent ''acp:s1'' []"
         "\<lparr>payloadSessionKey = Some ''acp:s1'', payloadState = Some ''delta'',
           payloadMessage = Some (textMessage [])\<rparr>"
         "textMessage []"
         "''hello''" "''hello, world''" "''hello, world''" "''hello, world and bye''"]
  have a: "handleChatEvent (deltaEvent ''acp:s1'' ''pong'') examplePrompted
       = emit (SessionUpdate ''s1'' ''pong'')
           (examplePrompted
              \<lparr>pendingPrompts :=
                 [(''s1'', \<lparr>pendingSessionId = ''s1'', idempotencyKey = ''run-1'',
                            sentTextLength = Some 4, sentText = Some ''pong''\<rparr>)]\<rparr>)"
    using t1[THEN conjunct1]
    by (simp add: deltaEvent_def chatEvent_def ft st pp eval_nat_numeral)
  have b: "handleChatEvent (deltaEvent ''acp:s1'' []) examplePrompted = examplePrompted"
    using t2[THEN conjunct1]
    by (simp add: deltaEvent_def chatEvent_def ft st)
  have c: "trace (feedDeltas ''acp:s1''
              [''hello'', ''hello, world'', ''hello, world'', ''hello, world and bye'']
              examplePrompted)
       = trace examplePrompted
         @ [SessionUpdate ''s1'' ''hello'', SessionUpdate ''s1'' '', world'',
            SessionUpdate ''s1'' '' and bye'']"
    using t1[THEN conjunct2]
    by (simp add: st startsWith_def)
  from wf a b c show ?thesis by (intro conjI)
qed


section \<open>Superseding prompts\<close>

text \<open>The footprint of one \<^verbatim>\<open>prompt\<close> call on a known session, as functions of the key.\<close>

lemma prompt_effect:
  assumes "getSession s sid \<noteq> None"
  shows "\<exists>s'. prompt sid blocks rid s = Inr s'
     \<and> (\<forall>x. sessions s' x =
            (if x = sid
             then map_option
                    (\<lambda>r. r\<lparr>activeRun := Some \<lparr>runId = rid, cancellationHandle = AbortController rid\<rparr>\<rparr>)
                    (sessions s sid)
             else sessions s x))
     \<and> (\<forall>x. mapGet (pendingPrompts s') x =
            (if x = sid
             then Some \<lparr>pendingSessionId = sid, idempotencyKey = rid,
                        sentTextLength = None, sentText = None\<rparr>
             else mapGet (pendingPrompts s) x))
     \<and> set (trace s) \<subseteq> set (trace s')
     \<and> (\<forall>r a. sessions s sid = Some r \<longrightarrow> activeRun r = Some a
            \<longrightarrow> Aborted (cancellationHandle a) \<in> set (trace s'))"
proof -
  from assms obtain r where r: "getSession s sid = Some r" by blast
  from prompt_known[OF r, of blocks rid] obtain s' msg att where
    p: "prompt sid blocks rid s = Inr s'"
    and se: "sessions s' sid
             = Some (r\<lparr>activeRun := Some \<lparr>runId = rid, cancellationHandle = AbortController rid\<rparr>\<rparr>)"
    and ot: "\<forall>sid'. sid' \<noteq> sid \<longrightarrow> sessions s' sid' = sessions s sid'"
    and pe: "pendingPrompts s'
             = mapSet sid \<lparr>pendingSessionId = sid, idempotencyKey = rid,
                           sentTextLength = None, sentText = None\<rparr> (pendingPrompts s)"
    and tr: "trace s'
             = trace s
               @ (case activeRun r of None \<Rightarrow> [] | Some a \<Rightarrow> [Aborted (cancellationHandle a)])
               @ [GatewayRequest (ChatSend (sessionKey r) msg att rid)]"
    by blast
  have rs: "sessions s sid = Some r" using r by (simp add: getSession_def)
  have 1: "\<forall>x. sessions s' x =
            (if x = sid
             then map_option
                    (\<lambda>r. r\<lparr>activeRun := Some \<lparr>runId = rid, cancellationHandle = AbortController rid\<rparr>\<rparr>)
                    (sessions s sid)
             else sessions s x)"
    using se ot rs by simp
  have 2: "\<forall>x. mapGet (pendingPrompts s') x =
            (if x = sid
             then Some \<lparr>pendingSessionId = sid, idempotencyKey = rid,
                        sentTextLength = None, sentText = None\<rparr>
             else mapGet (pendingPrompts s) x)"
    by (simp add: pe mapGet_mapSet)
  have 3: "set (trace s) \<subseteq> set (trace s')"
    by (auto simp: tr)
  have 4: "\<forall>r' a. sessions s sid = Some r' \<longrightarrow> activeRun r' = Some a
            \<longrightarrow> Aborted (cancellationHandle a) \<in> set (trace s')"
    using rs by (auto simp: tr)
  from p 1 2 3 4 show ?thesis by blast
qed

lemma promptCalls_invariant:
  assumes "\<forall>c \<in> set calls. getSession s (fst c) \<noteq> None"
  shows "\<exists>s'. promptCalls calls s = Inr s'
     \<and> (\<forall>x. sessions s' x =
            (case lastRunFor x calls of
               None \<Rightarrow> sessions s x
             | Some rid \<Rightarrow>
                 map_option
                   (\<lambda>r. r\<lparr>activeRun := Some \<lparr>runId = rid, cancellationHandle = AbortController rid\<rparr>\<rparr>)
                   (sessions s x)))
     \<and> (\<forall>x. mapGet (pendingPrompts s') x =
            (case lastRunFor x calls of
               None \<Rightarrow> mapGet (pendingPrompts s) x
             | Some rid \<Rightarrow> Some \<lparr>pendingSessionId = x, idempotencyKey = rid,
                                  sentTextLength = None, sentText = None\<rparr>))
     \<and> set (trace s) \<subseteq> set (trace s')
     \<and> (\<forall>x r a. lastRunFor x calls \<noteq> None \<longrightarrow> sessions s x = Some r \<longrightarrow> activeRun r = Some a
            \<longrightarrow> Aborted (cancellationHandle a) \<in> set (trace s'))
     \<and> (\<forall>rid \<in> set (supersededRuns calls). Aborted (AbortController rid) \<in> set (trace s'))"
  using assms
proof (induction calls arbitrary: s)
  case Nil
  then show ?case by simp
next
  case (Cons c rest)
  obtain sid0 b0 rid0 where c: "c = (sid0, b0, rid0)" by (cases c) auto
  from Cons.prems c have known0: "getSession s sid0 \<noteq> None" by simp
  from prompt_effect[OF known0, of b0 rid0] obtain s1 where
    p1: "prompt sid0 b0 rid0 s = Inr s1"
    and se1: "\<And>x. sessions s1 x =
            (if x = sid0
             then map_option
                    (\<lambda>r. r\<lparr>activeRun := Some \<lparr>runId = rid0, cancellationHandle = AbortController rid0\<rparr>\<rparr>)
                    (sessions s sid0)
             else sessions s x)"
    and pe1: "\<And>x. mapGet (pendingPrompts s1) x =
            (if x = sid0
             then Some \<lparr>pendingSessionId = sid0, idempotencyKey = rid0,
                        sentTextLength = None, sentText = None\<rparr>
             else mapGet (pendingPrompts s) x)"
    and tr1: "set (trace s) \<subseteq> set (trace s1)"
    and ab1: "\<And>r a. sessions s sid0 = Some r \<Longrightarrow> activeRun r = Some a
            \<Longrightarrow> Aborted (cancellationHandle a) \<in> set (trace s1)"
    by blast
  have known1: "\<forall>c \<in> set rest. getSession s1 (fst c) \<noteq> None"
  proof
    fix d assume "d \<in> set rest"
    with Cons.prems have "getSession s (fst d) \<noteq> None" by simp
    then show "getSession s1 (fst d) \<noteq> None"
      using known0 by (auto simp: getSession_def se1)
  qed
  from Cons.IH[OF known1] obtain s' where
    pr: "promptCalls rest s1 = Inr s'"
    and se: "\<And>x. sessions s' x =
            (case lastRunFor x rest of
               None \<Rightarrow> sessions s1 x
             | Some rid \<Rightarrow>
                 map_option
                   (\<lambda>r. r\<lparr>activeRun := Some \<lparr>runId = rid, cancellationHandle = AbortController rid\<rparr>\<rparr>)
                   (sessions s1 x))"
    and pe: "\<And>x. mapGet (pendingPrompts s') x =
            (case lastRunFor x rest of
               None \<Rightarrow> mapGet (pendingPrompts s1) x
             | Some rid \<Rightarrow> Some \<lparr>pendingSessionId = x, idempotencyKey = rid,
                                  sentTextLength = None, sentText = None\<rparr>)"
    and tr: "set (trace s1) \<subseteq> set (trace s')"
    and ab: "\<And>x r a. lastRunFor x rest \<noteq> None \<Longrightarrow> sessions s1 x = Some r \<Longrightarrow> activeRun r = Some a
            \<Longrightarrow> Aborted (cancellationHandle a) \<in> set (trace s')"
    and su: "\<And>rid. rid \<in> set (supersededRuns rest) \<Longrightarrow> Aborted (AbortController rid) \<in> set (trace s')"
    by blast
  have g0: "promptCalls (c # rest) s = Inr s'"
    by (simp add: c p1 pr)
  have g1: "\<forall>x. sessions s' x =
            (case lastRunFor x (c # rest) of
               None \<Rightarrow> sessions s x
             | Some rid \<Rightarrow>
                 map_option
                   (\<lambda>r. r\<lparr>activeRun := Some \<lparr>runId = rid, cancellationHandle = AbortController rid\<rparr>\<rparr>)
                   (sessions s x))"
  proof
    fix x
    show "sessions s' x =
            (case lastRunFor x (c # rest) of
               None \<Rightarrow> sessions s x
             | Some rid \<Rightarrow>
                 map_option
                   (\<lambda>r. r\<lparr>activeRun := Some \<lparr>runId = rid, cancellationHandle = AbortController rid\<rparr>\<rparr>)
                   (sessions s x))"
      by (cases "lastRunFor x rest"; cases "sessions s x"; cases "x = sid0")
         (auto simp: c se se1)
  qed
  have g2: "\<forall>x. mapGet (pendingPrompts s') x =
            (case lastRunFor x (c # rest) of
               None \<Rightarrow> mapGet (pendingPrompts s) x
             | Some rid \<Rightarrow> Some \<lparr>pendingSessionId = x, idempotencyKey = rid,
                                  sentTextLength = None, sentText = None\<rparr>)"
  proof
    fix x
    show "mapGet (pendingPrompts s') x =
            (case lastRunFor x (c # rest) of
               None \<Rightarrow> mapGet (pendingPrompts s) x
             | Some rid \<Rightarrow> Some \<lparr>pendingSessionId = x, idempotencyKey = rid,
                                  sentTextLength = None, sentText = None\<rparr>)"
      by (cases "lastRunFor x rest") (simp_all add: c pe pe1)
  qed
  have g3: "set (trace s) \<subseteq> set (trace s')"
    using tr1 tr by blast
  have g4: "\<forall>x r a. lastRunFor x (c # rest) \<noteq> None \<longrightarrow> sessions s x = Some r \<longrightarrow> activeRun r = Some a
            \<longrightarrow> Aborted (cancellationHandle a) \<in> set (trace s')"
  proof (intro allI impI)
    fix x r a
    assume l: "lastRunFor x (c # rest) \<noteq> None" and r: "sessions s x = Some r"
      and a: "activeRun r = Some a"
    show "Aborted (cancellationHandle a) \<in> set (trace s')"
    proof (cases "x = sid0")
      case True
      with r a have "Aborted (cancellationHandle a) \<in> set (trace s1)" by (auto intro: ab1)
      with tr show ?thesis by blast
    next
      case False
      with l have l': "lastRunFor x rest \<noteq> None"
        by (cases "lastRunFor x rest") (simp_all add: c)
      from False r have "sessions s1 x = Some r" by (simp add: se1)
      from ab[OF l' this a] show ?thesis .
    qed
  qed
  have g5: "\<forall>rid \<in> set (supersededRuns (c # rest)). Aborted (AbortController rid) \<in> set (trace s')"
  proof
    fix rid assume m: "rid \<in> set (supersededRuns (c # rest))"
    show "Aborted (AbortController rid) \<in> set (trace s')"
    proof (cases "rid \<in> set (supersededRuns rest)")
      case True
      then show ?thesis by (rule su)
    next
      case False
      with m have l': "lastRunFor sid0 rest \<noteq> None" and e: "rid = rid0"
        by (auto simp: c split: if_splits)
      from known0 obtain r0 where r0: "sessions s sid0 = Some r0"
        by (auto simp: getSession_def)
      let ?r1 = "r0\<lparr>activeRun := Some \<lparr>runId = rid0, cancellationHandle = AbortController rid0\<rparr>\<rparr>"
      have s1: "sessions s1 sid0 = Some ?r1" by (simp add: se1 r0)
      have a1: "activeRun ?r1 = Some \<lparr>runId = rid0, cancellationHandle = AbortController rid0\<rparr>"
        by simp
      from ab[OF l' s1 a1] e show ?thesis by simp
    qed
  qed
  from g0 g1 g2 g3 g4 g5 show ?case by blast
qed

lemma prompt_after_cancel:
  assumes "getSession s sid = Some r" and "activeRun r = Some a"
  shows "prompt sid blocks rid s = prompt sid blocks rid (cancelActiveRun sid s)"
proof -
  have c: "getSession (cancelActiveRun sid s) sid = Some (r\<lparr>activeRun := None\<rparr>)"
    using assms(1) by (simp add: getSession_def cancelActiveRun_sessions)
  have "cancelActiveRun sid (cancelActiveRun sid s) = cancelActiveRun sid s"
    using c by (simp add: cancelActiveRun_def[of sid "cancelActiveRun sid s"] getSession_def)
  show ?thesis
    using assms c by (simp add: prompt_def[of sid blocks rid s]
        prompt_def[of sid blocks rid "cancelActiveRun sid s"] abortController_def Let_def)
qed

text \<open>
  Claim C3. \<^verbatim>\<open>prompt\<close> on an unknown session fails with SessionNotFound. On a session that
  has an active run, the stored cancellation handle of that run is invoked first and the
  slot cleared, and the prompt then proceeds exactly as on the cancelled state: the abort
  of the old run precedes the request for the new one in the trace, and the slot holds
  the fresh run id. Hence after any sequence of \<^verbatim>\<open>prompt\<close> calls on known sessions, with
  nothing in between, every session that was prompted has exactly the run of its last
  call in its active-run slot and in its pending entry, every session that was not
  prompted is as before, and every run that a later call superseded has been aborted.
\<close>

theorem prompt_supersedes_active_run:
  "(getSession s sid = None \<longrightarrow> prompt sid blocks rid s = Inl (SessionNotFound sid))
   \<and> (getSession s sid = Some r \<and> activeRun r = Some a \<longrightarrow>
        (\<exists>s' msg att. prompt sid blocks rid s = Inr s'
           \<and> trace s' = trace s @ [Aborted (cancellationHandle a),
                                    GatewayRequest (ChatSend (sessionKey r) msg att rid)]
           \<and> sessions s' sid
               = Some (r\<lparr>activeRun := Some \<lparr>runId = rid,
                                             cancellationHandle = AbortController rid\<rparr>\<rparr>))
        \<and> prompt sid blocks rid s = prompt sid blocks rid (cancelActiveRun sid s)
        \<and> sessions (cancelActiveRun sid s) sid = Some (r\<lparr>activeRun := None\<rparr>)
        \<and> trace (cancelActiveRun sid s) = trace s @ [Aborted (cancellationHandle a)])
   \<and> ((\<forall>c \<in> set calls. getSession s (fst c) \<noteq> None) \<longrightarrow>
        (\<exists>s'. promptCalls calls s = Inr s'
           \<and> (\<forall>x rid'. lastRunFor x calls = Some rid' \<longrightarrow>
                 (\<exists>r'. sessions s' x = Some r'
                    \<and> activeRun r' = Some \<lparr>runId = rid',
                                           cancellationHandle = AbortController rid'\<rparr>)
                 \<and> map_option idempotencyKey (mapGet (pendingPrompts s') x) = Some rid')
           \<and> (\<forall>x. lastRunFor x calls = None \<longrightarrow> sessions s' x = sessions s x)
           \<and> (\<forall>rid' \<in> set (supersededRuns calls).
                 Aborted (AbortController rid') \<in> set (trace s'))))"
proof (intro conjI impI)
  assume "getSession s sid = None"
  then show "prompt sid blocks rid s = Inl (SessionNotFound sid)" by (rule prompt_unknown)
next
  assume h: "getSession s sid = Some r \<and> activeRun r = Some a"
  then have r: "getSession s sid = Some r" and a: "activeRun r = Some a" by simp_all
  from prompt_known[OF r, of blocks rid] a
  show "\<exists>s' msg att. prompt sid blocks rid s = Inr s'
           \<and> trace s' = trace s @ [Aborted (cancellationHandle a),
                                    GatewayRequest (ChatSend (sessionKey r) msg att rid)]
           \<and> sessions s' sid
               = Some (r\<lparr>activeRun := Some \<lparr>runId = rid,
                                             cancellationHandle = AbortController rid\<rparr>\<rparr>)"
    by auto
  show "prompt sid blocks rid s = prompt sid blocks rid (cancelActiveRun sid s)"
    using r a by (rule prompt_after_cancel)
  show "sessions (cancelActiveRun sid s) sid = Some (r\<lparr>activeRun := None\<rparr>)"
    using r by (simp add: cancelActiveRun_sessions getSession_def)
  show "trace (cancelActiveRun sid s) = trace s @ [Aborted (cancellationHandle a)]"
    using r a by (simp add: cancelActiveRun_trace getSession_def)
next
  assume k: "\<forall>c \<in> set calls. getSession s (fst c) \<noteq> None"
  from promptCalls_invariant[OF k] obtain s' where
    pr: "promptCalls calls s = Inr s'"
    and se: "\<And>x. sessions s' x =
            (case lastRunFor x calls of
               None \<Rightarrow> sessions s x
             | Some rid \<Rightarrow>
                 map_option
                   (\<lambda>r. r\<lparr>activeRun := Some \<lparr>runId = rid, cancellationHandle = AbortController rid\<rparr>\<rparr>)
                   (sessions s x))"
    and pe: "\<And>x. mapGet (pendingPrompts s') x =
            (case lastRunFor x calls of
               None \<Rightarrow> mapGet (pendingPrompts s) x
             | Some rid \<Rightarrow> Some \<lparr>pendingSessionId = x, idempotencyKey = rid,
                                  sentTextLength = None, sentText = None\<rparr>)"
    and su: "\<forall>rid \<in> set (supersededRuns calls). Aborted (AbortController rid) \<in> set (trace s')"
    by blast
  have kn: "lastRunFor x cs = Some rid' \<Longrightarrow> x \<in> fst ` set cs" for x rid' cs
    by (induction cs) (auto split: option.splits if_splits)
  have 1: "\<forall>x rid'. lastRunFor x calls = Some rid' \<longrightarrow>
                 (\<exists>r'. sessions s' x = Some r'
                    \<and> activeRun r' = Some \<lparr>runId = rid',
                                           cancellationHandle = AbortController rid'\<rparr>)
                 \<and> map_option idempotencyKey (mapGet (pendingPrompts s') x) = Some rid'"
  proof (intro allI impI)
    fix x rid' assume l: "lastRunFor x calls = Some rid'"
    from kn[OF l] k have "getSession s x \<noteq> None" by auto
    then obtain r0 where "sessions s x = Some r0" by (auto simp: getSession_def)
    with l show "(\<exists>r'. sessions s' x = Some r'
                    \<and> activeRun r' = Some \<lparr>runId = rid',
                                           cancellationHandle = AbortController rid'\<rparr>)
                 \<and> map_option idempotencyKey (mapGet (pendingPrompts s') x) = Some rid'"
      by (simp add: se pe)
  qed
  have 2: "\<forall>x. lastRunFor x calls = None \<longrightarrow> sessions s' x = sessions s x"
    by (simp add: se)
  from pr 1 2 su
  show "\<exists>s'. promptCalls calls s = Inr s'
           \<and> (\<forall>x rid'. lastRunFor x calls = Some rid' \<longrightarrow>
                 (\<exists>r'. sessions s' x = Some r'
                    \<and> activeRun r' = Some \<lparr>runId = rid',
                                           cancellationHandle = AbortController rid'\<rparr>)
                 \<and> map_option idempotencyKey (mapGet (pendingPrompts s') x) = Some rid')
           \<and> (\<forall>x. lastRunFor x calls = None \<longrightarrow> sessions s' x = sessions s x)
           \<and> (\<forall>rid' \<in> set (supersededRuns calls).
                 Aborted (AbortController rid') \<in> set (trace s'))"
    by blast
qed

theorem prompt_supersedes_active_run_witness:
  "prompt ''nonexistent'' [TextBlock ''hello''] ''run-0'' exampleState
     = Inl (SessionNotFound ''nonexistent'')
   \<and> (\<exists>s' msg att. prompt ''s1'' [TextBlock ''again''] ''run-3'' examplePrompted = Inr s'
          \<and> trace s' = trace examplePrompted
                @ [Aborted (AbortController ''run-1''),
                   GatewayRequest (ChatSend ''acp:s1'' msg att ''run-3'')]
          \<and> map_option activeRun (sessions s' ''s1'')
              = Some (Some \<lparr>runId = ''run-3'', cancellationHandle = AbortController ''run-3''\<rparr>))
   \<and> (\<exists>s'. promptCalls [(''s1'', [TextBlock ''ping''], ''run-1''),
                         (''s2'', [TextBlock ''pong''], ''run-2''),
                         (''s1'', [TextBlock ''again''], ''run-3'')] exampleState = Inr s'
          \<and> map_option activeRun (sessions s' ''s1'')
              = Some (Some \<lparr>runId = ''run-3'', cancellationHandle = AbortController ''run-3''\<rparr>)
          \<and> map_option activeRun (sessions s' ''s2'')
              = Some (Some \<lparr>runId = ''run-2'', cancellationHandle = AbortController ''run-2''\<rparr>)
          \<and> map_option idempotencyKey (mapGet (pendingPrompts s') ''s1'') = Some ''run-3''
          \<and> Aborted (AbortController ''run-1'') \<in> set (trace s'))"
proof -
  let ?calls = "[(''s1'', [TextBlock ''ping''], ''run-1''),
                 (''s2'', [TextBlock ''pong''], ''run-2''),
                 (''s1'', [TextBlock ''again''], ''run-3'')]"
  let ?r = "\<lparr>sessionId = ''s1'', sessionKey = ''acp:s1'', cwd = ''/tmp/x'',
                    activeRun = Some \<lparr>runId = ''run-1'',
                                       cancellationHandle = AbortController ''run-1''\<rparr>\<rparr>"
  let ?a = "\<lparr>runId = ''run-1'', cancellationHandle = AbortController ''run-1''\<rparr>"
  have u: "getSession exampleState ''nonexistent'' = None"
    by (simp add: getSession_def exampleState_def)
  have g: "getSession examplePrompted ''s1'' = Some ?r \<and> activeRun ?r = Some ?a"
    by (simp add: getSession_def examplePrompted_eq)
  have k: "\<forall>c \<in> set ?calls. getSession exampleState (fst c) \<noteq> None"
    by (simp add: getSession_def exampleState_def)
  have l: "lastRunFor ''s1'' ?calls = Some ''run-3''" "lastRunFor ''s2'' ?calls = Some ''run-2''"
      "supersededRuns ?calls = [''run-1'']"
    by simp_all
  from prompt_supersedes_active_run
         [of exampleState "''nonexistent''" "[TextBlock ''hello'']" "''run-0''" ?r ?a "[]"] u
  have 1: "prompt ''nonexistent'' [TextBlock ''hello''] ''run-0'' exampleState
     = Inl (SessionNotFound ''nonexistent'')"
    by blast
  from prompt_supersedes_active_run
         [of examplePrompted "''s1''" "[TextBlock ''again'']" "''run-3''" ?r ?a "[]"] g
  obtain s' msg att where "prompt ''s1'' [TextBlock ''again''] ''run-3'' examplePrompted = Inr s'"
     "trace s' = trace examplePrompted @ [Aborted (cancellationHandle ?a),
                                    GatewayRequest (ChatSend (sessionKey ?r) msg att ''run-3'')]"
     "sessions s' ''s1''
               = Some (?r\<lparr>activeRun := Some \<lparr>runId = ''run-3'',
                                             cancellationHandle = AbortController ''run-3''\<rparr>\<rparr>)"
    by blast
  then have 2: "\<exists>s' msg att. prompt ''s1'' [TextBlock ''again''] ''run-3'' examplePrompted = Inr s'
          \<and> trace s' = trace examplePrompted
                @ [Aborted (AbortController ''run-1''),
                   GatewayRequest (ChatSend ''acp:s1'' msg att ''run-3'')]
          \<and> map_option activeRun (sessions s' ''s1'')
              = Some (Some \<lparr>runId = ''run-3'', cancellationHandle = AbortController ''run-3''\<rparr>)"
    by (intro exI[of _ s'] exI[of _ msg] exI[of _ att]) simp
  from prompt_supersedes_active_run
         [of exampleState "''s1''" "[]" "''run-0''" ?r ?a ?calls] k
  obtain s'' where pc: "promptCalls ?calls exampleState = Inr s''"
    and la: "\<And>x rid'. lastRunFor x ?calls = Some rid' \<Longrightarrow>
                 (\<exists>r'. sessions s'' x = Some r'
                    \<and> activeRun r' = Some \<lparr>runId = rid',
                                           cancellationHandle = AbortController rid'\<rparr>)
                 \<and> map_option idempotencyKey (mapGet (pendingPrompts s'') x) = Some rid'"
    and su: "\<forall>rid' \<in> set (supersededRuns ?calls).
                 Aborted (AbortController rid') \<in> set (trace s'')"
    by blast
  from la[OF l(1)] la[OF l(2)] su l(3) pc
  have 3: "\<exists>s'. promptCalls ?calls exampleState = Inr s'
          \<and> map_option activeRun (sessions s' ''s1'')
              = Some (Some \<lparr>runId = ''run-3'', cancellationHandle = AbortController ''run-3''\<rparr>)
          \<and> map_option activeRun (sessions s' ''s2'')
              = Some (Some \<lparr>runId = ''run-2'', cancellationHandle = AbortController ''run-2''\<rparr>)
          \<and> map_option idempotencyKey (mapGet (pendingPrompts s') ''s1'') = Some ''run-3''
          \<and> Aborted (AbortController ''run-1'') \<in> set (trace s')"
    by (intro exI[of _ s'']) auto
  from 1 2 3 show ?thesis by (intro conjI)
qed


section \<open>The invariant of the pending table holds in every reachable state\<close>

text \<open>
  The theorems about chat events assume \<open>pendingWf\<close>. It holds for an empty table and
  every operation of the translator keeps it, so it restricts no state the bridge can be
  in.
\<close>

lemma mapSet_fst:
  "map fst (mapSet k v ps) = (if k \<in> fst ` set ps then map fst ps else map fst ps @ [k])"
  by (induction ps) (auto split: if_splits)

lemma mapGet_in: "mapGet ps k = Some a \<Longrightarrow> (k, a) \<in> set ps"
  by (induction ps) (auto split: if_splits)

lemma pendingWf_mapSet:
  assumes "pendingWf s" and "pendingSessionId v = k"
  shows "pendingWf (s\<lparr>pendingPrompts := mapSet k v (pendingPrompts s)\<rparr>)"
  using assms by (auto simp: pendingWf_def mapSet_fst mapSet_list_all)

lemma pendingWf_mapDelete:
  assumes "pendingWf s"
  shows "pendingWf (s\<lparr>pendingPrompts := mapDelete k (pendingPrompts s)\<rparr>)"
  using assms by (auto simp: pendingWf_def mapDelete_filter distinct_map_filter list_all_iff)

lemma pendingWf_cong: "pendingPrompts s' = pendingPrompts s \<Longrightarrow> pendingWf s' = pendingWf s"
  by (simp add: pendingWf_def)

lemma pendingWf_empty: "pendingPrompts s = [] \<Longrightarrow> pendingWf s"
  by (simp add: pendingWf_def)

lemma pendingWf_prompt:
  assumes "pendingWf s" and "prompt sid blocks rid s = Inr s'"
  shows "pendingWf s'"
proof -
  from assms(2) obtain r where r: "getSession s sid = Some r"
    by (cases "getSession s sid") (simp_all add: prompt_def)
  let ?v = "\<lparr>pendingSessionId = sid, idempotencyKey = rid,
             sentTextLength = None, sentText = None\<rparr>"
  from prompt_known[OF r, of blocks rid] assms(2)
  have "pendingPrompts s' = mapSet sid ?v (pendingPrompts s)" by auto
  then have "pendingWf s' = pendingWf (s\<lparr>pendingPrompts := mapSet sid ?v (pendingPrompts s)\<rparr>)"
    by (simp add: pendingWf_def)
  with pendingWf_mapSet[OF assms(1), of ?v sid] show ?thesis by simp
qed

lemma pendingWf_handleDelta:
  assumes "pendingWf s"
  shows "pendingWf (handleDelta sid m s)"
proof (cases "mapGet (pendingPrompts s) sid")
  case None
  with assms show ?thesis by (simp add: handleDelta_def)
next
  case (Some a)
  from assms mapGet_in[OF Some] have k: "pendingSessionId a = sid"
    by (auto simp: pendingWf_def list_all_iff)
  let ?v = "a\<lparr>sentTextLength := Some (length (fullTextOf m)), sentText := Some (fullTextOf m)\<rparr>"
  have "pendingWf (s\<lparr>pendingPrompts := mapSet sid ?v (pendingPrompts s)\<rparr>)"
    using assms k by (intro pendingWf_mapSet) simp_all
  then have "pendingWf (emit (SessionUpdate sid (drop (storedLength a) (fullTextOf m)))
                 (s\<lparr>pendingPrompts := mapSet sid ?v (pendingPrompts s)\<rparr>))"
    by (simp add: pendingWf_def emit_fields)
  with assms show ?thesis
    by (simp add: handleDelta_cases[OF Some])
qed

lemma pendingWf_handleTerminal:
  assumes "pendingWf s"
  shows "pendingWf (handleTerminal p st s)"
  using pendingWf_mapDelete[OF assms, of "pendingSessionId p"]
  by (simp add: handleTerminal_def terminalSteps_def Let_def pendingWf_def emit_fields
      clearActiveRun_fields)

lemma pendingWf_handleChatEvent:
  assumes "pendingWf s"
  shows "pendingWf (handleChatEvent evt s)"
  using assms
  by (auto simp: handleChatEvent_def pendingWf_handleDelta pendingWf_handleTerminal
      split: option.splits)

lemma pendingWf_handleGatewayDisconnect: "pendingWf (handleGatewayDisconnect reason s)"
  by (simp add: handleGatewayDisconnect_def Let_def pendingWf_def)

lemma pendingWf_chatSendCatch:
  assumes "pendingWf s"
  shows "pendingWf (chatSendCatch sid rid err s)"
  using pendingWf_mapDelete[OF assms, of sid]
  by (simp add: pendingWf_def chatSendCatch_shape)

end
